theory Spec2Isabelle
  imports Complex_Main "HOL-Library.Word" "HOL-Library.Sublist" "HOL-Library.Monad_Syntax"
begin

section \<open>Orders and the local active order book\<close>

text \<open>
  Source: \<^verbatim>\<open>pkg/bbgo/active_book.go\<close>. The package \<^verbatim>\<open>types\<close> (Order, SideType,
  OrderStatus, SyncOrderMap) is not part of the sources at hand; what the order book reads
  of it is declared here.
\<close>

text \<open>
  Modelled from the spec: \<^verbatim>\<open>types.SideType\<close>. The spec names the sides buy and sell. The
  Go type is a string type and \<^verbatim>\<open>switch order.Side\<close> in the order book has no default
  branch, so a third constructor stands for every other value.
\<close>

datatype SideType = SideTypeBuy | SideTypeSell | SideTypeOther string

text \<open>
  Modelled from the spec: \<^verbatim>\<open>types.OrderStatus\<close>, "status
  (new/partially-filled/filled/canceled/rejected)".
\<close>

datatype OrderStatus =
    OrderStatusNew
  | OrderStatusPartiallyFilled
  | OrderStatusFilled
  | OrderStatusCanceled
  | OrderStatusRejected

text \<open>
  Modelled from the spec: \<^verbatim>\<open>types.Order\<close>, reduced to the fields the order book and the
  sync service read. \<^verbatim>\<open>OrderID\<close> is a \<^verbatim>\<open>uint64\<close> (\<^verbatim>\<open>SyncOrders\<close> assigns it to a \<^verbatim>\<open>uint64\<close>
  variable). A \<^verbatim>\<open>time.Time\<close> is modelled by its instant, an integer; \<^verbatim>\<open>After\<close> is \<open>>\<close> on
  instants and \<^verbatim>\<open>!=\<close> is inequality of instants.
\<close>

type_synonym Time = int

record Order =
  OrderID :: "64 word"
  Side :: SideType
  Status :: OrderStatus
  CreationTime :: Time

text \<open>
  Modelled from the spec: \<^verbatim>\<open>types.SyncOrderMap\<close>, a mapping of orders "keyed by OrderID".
  \<^verbatim>\<open>Add\<close> stores an order under its own OrderID, \<^verbatim>\<open>Delete\<close> removes a key and is a no-op
  when the key is absent. The mutex of the Go type is not modelled: the functions below are
  the sequential behaviour of one caller.
\<close>

type_synonym SyncOrderMap = "64 word \<rightharpoonup> Order"

definition NewSyncOrderMap :: SyncOrderMap where
  "NewSyncOrderMap = Map.empty"

definition SyncOrderMap_Add :: "SyncOrderMap \<Rightarrow> Order \<Rightarrow> SyncOrderMap" where
  "SyncOrderMap_Add m order = m(OrderID order \<mapsto> order)"

definition SyncOrderMap_Delete :: "SyncOrderMap \<Rightarrow> 64 word \<Rightarrow> SyncOrderMap" where
  "SyncOrderMap_Delete m orderID = m(orderID := None)"

text \<open>
  Modelled from the spec: \<^verbatim>\<open>SyncOrderMap.AnyFilled\<close>, which "searches ... for any order
  currently flagged filled". Which filled order it returns is not determined (a Go map is
  iterated in no fixed order), so the operation is a parameter \<open>anyFilled\<close> of \<open>WriteOff\<close>,
  with \<open>None\<close> for \<^verbatim>\<open>ok = false\<close>, and this is its contract on a map \<open>m\<close>: a returned order
  is stored in \<open>m\<close> and is filled, and nothing is returned only if \<open>m\<close> holds no filled order.
\<close>

definition AnyFilled_contract :: "(SyncOrderMap \<Rightarrow> Order option) \<Rightarrow> SyncOrderMap \<Rightarrow> bool" where
  "AnyFilled_contract anyFilled m =
     (case anyFilled m of
        None \<Rightarrow> (\<forall>v \<in> ran m. Status v \<noteq> OrderStatusFilled)
      | Some filledOrder \<Rightarrow> filledOrder \<in> ran m \<and> Status filledOrder = OrderStatusFilled)"

text \<open>Every order of a \<^verbatim>\<open>SyncOrderMap\<close> is stored under its own OrderID, as \<^verbatim>\<open>Add\<close> does.\<close>

definition keyed_by_OrderID :: "SyncOrderMap \<Rightarrow> bool" where
  "keyed_by_OrderID m = (\<forall>k v. m k = Some v \<longrightarrow> OrderID v = k)"

record LocalActiveOrderBook =
  Bids :: SyncOrderMap
  Asks :: SyncOrderMap

definition NewLocalActiveOrderBook :: LocalActiveOrderBook where
  "NewLocalActiveOrderBook = \<lparr>Bids = NewSyncOrderMap, Asks = NewSyncOrderMap\<rparr>"

text \<open>The body of the loop of \<^verbatim>\<open>Add(orders ...types.Order)\<close>, then the loop.\<close>

definition Add_order :: "LocalActiveOrderBook \<Rightarrow> Order \<Rightarrow> LocalActiveOrderBook" where
  "Add_order b order =
     (case Side order of
        SideTypeBuy \<Rightarrow> b\<lparr>Bids := SyncOrderMap_Add (Bids b) order\<rparr>
      | SideTypeSell \<Rightarrow> b\<lparr>Asks := SyncOrderMap_Add (Asks b) order\<rparr>
      | SideTypeOther _ \<Rightarrow> b)"

definition Add :: "LocalActiveOrderBook \<Rightarrow> Order list \<Rightarrow> LocalActiveOrderBook" where
  "Add b orders = foldl Add_order b orders"

definition Delete :: "LocalActiveOrderBook \<Rightarrow> Order \<Rightarrow> LocalActiveOrderBook" where
  "Delete b order =
     (case Side order of
        SideTypeBuy \<Rightarrow> b\<lparr>Bids := SyncOrderMap_Delete (Bids b) (OrderID order)\<rparr>
      | SideTypeSell \<Rightarrow> b\<lparr>Asks := SyncOrderMap_Delete (Asks b) (OrderID order)\<rparr>
      | SideTypeOther _ \<Rightarrow> b)"

text \<open>
  \<^verbatim>\<open>WriteOff\<close> returns its boolean together with the book it leaves behind.
\<close>

definition WriteOff ::
  "(SyncOrderMap \<Rightarrow> Order option) \<Rightarrow> LocalActiveOrderBook \<Rightarrow> Order \<Rightarrow> bool \<times> LocalActiveOrderBook" where
  "WriteOff anyFilled b order =
     (if Status order \<noteq> OrderStatusFilled then (False, b)
      else case Side order of
        SideTypeSell \<Rightarrow>
          (case anyFilled (Bids b) of
             Some filledOrder \<Rightarrow>
               (True, b\<lparr>Bids := SyncOrderMap_Delete (Bids b) (OrderID filledOrder),
                        Asks := SyncOrderMap_Delete (Asks b) (OrderID order)\<rparr>)
           | None \<Rightarrow> (False, b))
      | SideTypeBuy \<Rightarrow>
          (case anyFilled (Asks b) of
             Some filledOrder \<Rightarrow>
               (True, b\<lparr>Asks := SyncOrderMap_Delete (Asks b) (OrderID filledOrder),
                        Bids := SyncOrderMap_Delete (Bids b) (OrderID order)\<rparr>)
           | None \<Rightarrow> (False, b))
      | SideTypeOther _ \<Rightarrow> (False, b))"

text \<open>
  A sequence of calls on one book. Each \<^verbatim>\<open>WriteOff\<close> carries the \<^verbatim>\<open>AnyFilled\<close> it meets,
  so that two calls may pick differently.
\<close>

datatype BookOp =
    OpAdd "Order list"
  | OpDelete Order
  | OpWriteOff "SyncOrderMap \<Rightarrow> Order option" Order

fun apply_op :: "LocalActiveOrderBook \<Rightarrow> BookOp \<Rightarrow> LocalActiveOrderBook" where
  "apply_op b (OpAdd orders) = Add b orders"
| "apply_op b (OpDelete order) = Delete b order"
| "apply_op b (OpWriteOff anyFilled order) = snd (WriteOff anyFilled b order)"

definition run_ops :: "LocalActiveOrderBook \<Rightarrow> BookOp list \<Rightarrow> LocalActiveOrderBook" where
  "run_ops b ops = foldl apply_op b ops"

fun added_orders :: "BookOp list \<Rightarrow> Order list" where
  "added_orders [] = []"
| "added_orders (OpAdd orders # ops) = orders @ added_orders ops"
| "added_orders (_ # ops) = added_orders ops"

text \<open>No OrderID is passed to \<^verbatim>\<open>Add\<close> once with one side and once with another.\<close>

definition one_side_per_OrderID :: "Order list \<Rightarrow> bool" where
  "one_side_per_OrderID orders =
     (\<forall>x \<in> set orders. \<forall>y \<in> set orders. OrderID x = OrderID y \<longrightarrow> Side x = Side y)"

section \<open>Indicators\<close>

text \<open>
  Sources: \<^verbatim>\<open>pkg/indicator\<close> (VIDYA, OBV, CCI, ATR, RMA, DEMA). A \<^verbatim>\<open>float64\<close> is modelled by
  a real number: rounding, infinities and NaN are not modelled, and the properties proved
  of the indicators are about which updates are applied, in which order, and about the
  lengths of the histories. A \<^verbatim>\<open>fixedpoint.Value\<close> of a candle is modelled by a real number
  too, with \<^verbatim>\<open>Float64()\<close> the identity. Go's \<^verbatim>\<open>int\<close> is modelled by \<open>int\<close>; the only arithmetic
  on it is a counter that is incremented once per update.
\<close>

record KLine =
  High :: real
  Low :: real
  Close :: real
  Volume :: real
  EndTime :: Time

text \<open>
  Modelled from the spec: \<^verbatim>\<open>types.Float64Slice\<close> (package \<^verbatim>\<open>types\<close> is not under src). The
  slice holds the history oldest first; \<^verbatim>\<open>Push\<close> appends, \<^verbatim>\<open>Last\<close> is the newest value and
  \<^verbatim>\<open>Index(i)\<close> the value \<open>i\<close> places before the newest ("value at position 0 is the most
  recently computed one"), both 0 where there is none, as \<^verbatim>\<open>CCI.Last\<close> and \<^verbatim>\<open>CCI.Index\<close>
  do on the same type.
\<close>

type_synonym Float64Slice = "real list"

definition Push :: "Float64Slice \<Rightarrow> real \<Rightarrow> Float64Slice" where
  "Push s v = s @ [v]"

definition Length :: "Float64Slice \<Rightarrow> int" where
  "Length s = int (length s)"

definition Last :: "Float64Slice \<Rightarrow> real" where
  "Last s = (if s = [] then 0 else last s)"

definition Index :: "Float64Slice \<Rightarrow> int \<Rightarrow> real" where
  "Index s i = (if i < 0 \<or> Length s - i \<le> 0 then 0 else s ! nat (Length s - i - 1))"

text \<open>
  The slice expression \<^verbatim>\<open>s[low:]\<close>: it panics (\<open>None\<close>) unless \<open>0 \<le> low \<le> len(s)\<close>.
\<close>

definition slice_from :: "'a list \<Rightarrow> int \<Rightarrow> 'a list option" where
  "slice_from s low =
     (if 0 \<le> low \<and> low \<le> int (length s) then Some (drop (nat low) s) else None)"

text \<open>
  The constants \<^verbatim>\<open>MaxNumOfEWMA\<close> and \<^verbatim>\<open>MaxNumOfEWMATruncateSize\<close> are declared outside the
  sources at hand, so they are parameters. \<open>truncate_tail\<close> is the statement
  \<^verbatim>\<open>if len(s) > MaxNumOfEWMA { s = s[MaxNumOfEWMATruncateSize-1:] }\<close>
  that the indicators repeat.
\<close>

record Limits =
  MaxNumOfEWMA :: int
  MaxNumOfEWMATruncateSize :: int

definition truncate_tail :: "Limits \<Rightarrow> 'a list \<Rightarrow> 'a list option" where
  "truncate_tail c s =
     (if int (length s) > MaxNumOfEWMA c
      then slice_from s (MaxNumOfEWMATruncateSize c - 1) else Some s)"

text \<open>
  A window of candles is delivered to \<^verbatim>\<open>calculateAndUpdate\<close>; \<open>feed\<close> delivers a list of
  windows one after the other and stops at the first panic.
\<close>

fun feed :: "('s \<Rightarrow> 'w \<Rightarrow> 's option) \<Rightarrow> 's \<Rightarrow> 'w list \<Rightarrow> 's option" where
  "feed step inc [] = Some inc"
| "feed step inc (w # ws) = (case step inc w of None \<Rightarrow> None | Some inc' \<Rightarrow> feed step inc' ws)"

subsection \<open>VIDYA (vidya.go)\<close>

text \<open>
  \<^verbatim>\<open>types.Change\<close>, \<^verbatim>\<open>types.Sum\<close> and \<^verbatim>\<open>types.Abs\<close> are not under src: they are parameters, and
  \<open>'s\<close> is the type of the series they pass on. The callbacks run by \<^verbatim>\<open>EmitUpdate\<close> are
  generated code outside the sources: the values they are called with are recorded in the
  field \<open>emitted\<close>.
\<close>

record 's SeriesOps =
  Change :: "Float64Slice \<Rightarrow> 's"
  Sum :: "'s \<Rightarrow> int \<Rightarrow> real"
  Abs :: "'s \<Rightarrow> 's"

record VIDYA =
  VIDYA_Window :: int
  VIDYA_Values :: Float64Slice
  VIDYA_input :: Float64Slice
  VIDYA_emitted :: "real list"

definition VIDYA_Update :: "Limits \<Rightarrow> 's SeriesOps \<Rightarrow> VIDYA \<Rightarrow> real \<Rightarrow> VIDYA option" where
  "VIDYA_Update c ops inc value =
     (if Length (VIDYA_Values inc) = 0
      then Some (inc\<lparr>VIDYA_Values := Push (VIDYA_Values inc) value,
                      VIDYA_input := Push (VIDYA_input inc) value\<rparr>)
      else do {
        input' \<leftarrow> truncate_tail c (Push (VIDYA_input inc) value);
        let change = Change ops input';
        let CMO = \<bar>Sum ops change (VIDYA_Window inc) / Sum ops (Abs ops change) (VIDYA_Window inc)\<bar>;
        let alpha = 2 / real_of_int (VIDYA_Window inc + 1);
        values' \<leftarrow> truncate_tail c
          (Push (VIDYA_Values inc) (value * alpha * CMO + Last (VIDYA_Values inc) * (1 - alpha * CMO)));
        Some (inc\<lparr>VIDYA_Values := values', VIDYA_input := input'\<rparr>)
      })"

definition VIDYA_Last :: "VIDYA \<Rightarrow> real" where
  "VIDYA_Last inc = Last (VIDYA_Values inc)"

definition VIDYA_EmitUpdate :: "VIDYA \<Rightarrow> real \<Rightarrow> VIDYA" where
  "VIDYA_EmitUpdate inc v = inc\<lparr>VIDYA_emitted := VIDYA_emitted inc @ [v]\<rparr>"

text \<open>
  The two statements \<^verbatim>\<open>inc.Update(x); inc.EmitUpdate(inc.Last())\<close>, which both branches of
  \<^verbatim>\<open>calculateAndUpdate\<close> run; then the loop of the cold-start branch.
\<close>

definition VIDYA_Update_Emit :: "Limits \<Rightarrow> 's SeriesOps \<Rightarrow> VIDYA \<Rightarrow> real \<Rightarrow> VIDYA option" where
  "VIDYA_Update_Emit c ops inc x =
     (case VIDYA_Update c ops inc x of
        None \<Rightarrow> None
      | Some inc' \<Rightarrow> Some (VIDYA_EmitUpdate inc' (VIDYA_Last inc')))"

fun VIDYA_replay :: "Limits \<Rightarrow> 's SeriesOps \<Rightarrow> VIDYA \<Rightarrow> KLine list \<Rightarrow> VIDYA option" where
  "VIDYA_replay c ops inc [] = Some inc"
| "VIDYA_replay c ops inc (k # ks) =
     (case VIDYA_Update_Emit c ops inc (Close k) of
        None \<Rightarrow> None
      | Some inc' \<Rightarrow> VIDYA_replay c ops inc' ks)"

text \<open>
  In the steady-state branch \<^verbatim>\<open>allKLines[len(allKLines)-1]\<close> panics on an empty window.
\<close>

definition VIDYA_calculateAndUpdate ::
  "Limits \<Rightarrow> 's SeriesOps \<Rightarrow> VIDYA \<Rightarrow> KLine list \<Rightarrow> VIDYA option" where
  "VIDYA_calculateAndUpdate c ops inc allKLines =
     (if Length (VIDYA_input inc) = 0 then VIDYA_replay c ops inc allKLines
      else if allKLines = [] then None
      else VIDYA_Update_Emit c ops inc (Close (last allKLines)))"

subsection \<open>CCI (cci.go)\<close>

text \<open>
  The assignment \<^verbatim>\<open>inc.SeriesBase.Series = inc\<close> stores a pointer of the indicator to itself
  and is not modelled.
\<close>

record CCI =
  CCI_Window :: int
  CCI_Input :: Float64Slice
  CCI_TypicalPrice :: Float64Slice
  CCI_MA :: Float64Slice
  CCI_Values :: Float64Slice
  CCI_emitted :: "real list"

definition CCI_Update :: "Limits \<Rightarrow> CCI \<Rightarrow> real \<Rightarrow> CCI option" where
  "CCI_Update c inc value =
     (if length (CCI_TypicalPrice inc) = 0
      then Some (inc\<lparr>CCI_TypicalPrice := Push (CCI_TypicalPrice inc) value,
                      CCI_Input := Push (CCI_Input inc) value\<rparr>)
      else do {
        typicalPrice \<leftarrow>
          (if int (length (CCI_TypicalPrice inc)) > MaxNumOfEWMA c
           then slice_from (CCI_TypicalPrice inc) (MaxNumOfEWMATruncateSize c - 1)
           else Some (CCI_TypicalPrice inc));
        input \<leftarrow>
          (if int (length (CCI_TypicalPrice inc)) > MaxNumOfEWMA c
           then slice_from (CCI_Input inc) (MaxNumOfEWMATruncateSize c - 1)
           else Some (CCI_Input inc));
        let input' = Push input value;
        let tp = Last typicalPrice - Index input' (CCI_Window inc) + value;
        let typicalPrice' = Push typicalPrice tp;
        if int (length input') < CCI_Window inc
        then Some (inc\<lparr>CCI_Input := input', CCI_TypicalPrice := typicalPrice'\<rparr>)
        else do {
          let ma = tp / real_of_int (CCI_Window inc);
          ma' \<leftarrow> truncate_tail c (Push (CCI_MA inc) ma);
          let md = foldl (\<lambda>md i. md + (Index input' (int i) - ma) * (Index input' (int i) - ma))
                     0 [0..<nat (CCI_Window inc)];
          let md' = sqrt (md / real_of_int (CCI_Window inc));
          let cci = (value - ma) / (0.015 * md');
          values' \<leftarrow> truncate_tail c (Push (CCI_Values inc) cci);
          Some (inc\<lparr>CCI_Input := input', CCI_TypicalPrice := typicalPrice',
                    CCI_MA := ma', CCI_Values := values'\<rparr>)
        }
      })"

definition CCI_Last :: "CCI \<Rightarrow> real" where
  "CCI_Last inc = (if length (CCI_Values inc) = 0 then 0 else CCI_Values inc ! (length (CCI_Values inc) - 1))"

definition CCI_EmitUpdate :: "CCI \<Rightarrow> real \<Rightarrow> CCI" where
  "CCI_EmitUpdate inc v = inc\<lparr>CCI_emitted := CCI_emitted inc @ [v]\<rparr>"

text \<open>\<^verbatim>\<open>k.High.Add(k.Low).Add(k.Close).Div(three).Float64()\<close>\<close>

definition typical_price :: "KLine \<Rightarrow> real" where
  "typical_price k = (High k + Low k + Close k) / 3"

definition CCI_Update_Emit :: "Limits \<Rightarrow> CCI \<Rightarrow> real \<Rightarrow> CCI option" where
  "CCI_Update_Emit c inc x =
     (case CCI_Update c inc x of
        None \<Rightarrow> None
      | Some inc' \<Rightarrow> Some (CCI_EmitUpdate inc' (CCI_Last inc')))"

fun CCI_replay :: "Limits \<Rightarrow> CCI \<Rightarrow> KLine list \<Rightarrow> CCI option" where
  "CCI_replay c inc [] = Some inc"
| "CCI_replay c inc (k # ks) =
     (case CCI_Update_Emit c inc (typical_price k) of
        None \<Rightarrow> None
      | Some inc' \<Rightarrow> CCI_replay c inc' ks)"

definition CCI_calculateAndUpdate :: "Limits \<Rightarrow> CCI \<Rightarrow> KLine list \<Rightarrow> CCI option" where
  "CCI_calculateAndUpdate c inc allKLines =
     (if Length (CCI_TypicalPrice inc) = 0 then CCI_replay c inc allKLines
      else if allKLines = [] then None
      else CCI_Update_Emit c inc (typical_price (last allKLines)))"

subsection \<open>RMA\<close>

text \<open>
  The variable \<^verbatim>\<open>zeroTime\<close> of the package is declared outside the sources at hand: it is a
  parameter of the functions that read it.
\<close>

record RMA =
  RMA_Window :: int
  RMA_Values :: Float64Slice
  RMA_counter :: int
  RMA_Adjust :: bool
  RMA_tmp :: real
  RMA_sum :: real
  RMA_EndTime :: Time
  RMA_emitted :: "real list"

definition RMA_Update :: "RMA \<Rightarrow> real \<Rightarrow> RMA" where
  "RMA_Update inc x =
     (let lambda = 1 / real_of_int (RMA_Window inc);
          inc1 = (if RMA_counter inc = 0 then inc\<lparr>RMA_sum := 1, RMA_tmp := x\<rparr>
                  else if RMA_Adjust inc
                  then (let sum' = RMA_sum inc * (1 - lambda) + 1
                        in inc\<lparr>RMA_sum := sum', RMA_tmp := RMA_tmp inc + (x - RMA_tmp inc) / sum'\<rparr>)
                  else inc\<lparr>RMA_tmp := RMA_tmp inc * (1 - lambda) + x * lambda\<rparr>);
          inc2 = inc1\<lparr>RMA_counter := RMA_counter inc1 + 1\<rparr>
      in if RMA_counter inc2 < RMA_Window inc2
         then inc2\<lparr>RMA_Values := Push (RMA_Values inc2) 0\<rparr>
         else inc2\<lparr>RMA_Values := Push (RMA_Values inc2) (RMA_tmp inc2)\<rparr>)"

definition RMA_Last :: "RMA \<Rightarrow> real" where
  "RMA_Last inc = Last (RMA_Values inc)"

definition RMA_EmitUpdate :: "RMA \<Rightarrow> real \<Rightarrow> RMA" where
  "RMA_EmitUpdate inc v = inc\<lparr>RMA_emitted := RMA_emitted inc @ [v]\<rparr>"

text \<open>The loop of \<^verbatim>\<open>calculateAndUpdate\<close>, with its \<^verbatim>\<open>continue\<close>.\<close>

fun RMA_loop :: "Time \<Rightarrow> RMA \<Rightarrow> KLine list \<Rightarrow> RMA" where
  "RMA_loop zeroTime inc [] = inc"
| "RMA_loop zeroTime inc (k # kLines) =
     (if RMA_EndTime inc \<noteq> zeroTime \<and> \<not> EndTime k > RMA_EndTime inc
      then RMA_loop zeroTime inc kLines
      else RMA_loop zeroTime (RMA_Update inc (Close k)) kLines)"

text \<open>After the loop, \<^verbatim>\<open>kLines[len(kLines)-1]\<close> panics on an empty window.\<close>

definition RMA_calculateAndUpdate :: "Time \<Rightarrow> RMA \<Rightarrow> KLine list \<Rightarrow> RMA option" where
  "RMA_calculateAndUpdate zeroTime inc kLines =
     (let inc1 = RMA_loop zeroTime inc kLines;
          inc2 = RMA_EmitUpdate inc1 (RMA_Last inc1)
      in if kLines = [] then None
         else Some (inc2\<lparr>RMA_EndTime := EndTime (last kLines)\<rparr>))"

subsection \<open>ATR (atr.go)\<close>

record ATR =
  ATR_Window :: int
  ATR_PercentageVolatility :: Float64Slice
  ATR_PreviousClose :: real
  ATR_RMA :: "RMA option"
  ATR_EndTime :: Time
  ATR_emitted :: "real list"

text \<open>
  \<^verbatim>\<open>&RMA{IntervalWindow: types.IntervalWindow{Window: inc.Window}}\<close>: every other field has
  its zero value; \<open>zeroTime\<close> stands for the zero \<^verbatim>\<open>time.Time\<close>.
\<close>

definition RMA_new :: "Time \<Rightarrow> int \<Rightarrow> RMA" where
  "RMA_new zeroTime window =
     \<lparr>RMA_Window = window, RMA_Values = [], RMA_counter = 0, RMA_Adjust = False,
      RMA_tmp = 0, RMA_sum = 0, RMA_EndTime = zeroTime, RMA_emitted = []\<rparr>"

text \<open>\<open>None\<close> is the panic "window must be greater than 0".\<close>

definition ATR_Update :: "Time \<Rightarrow> ATR \<Rightarrow> real \<Rightarrow> real \<Rightarrow> real \<Rightarrow> ATR option" where
  "ATR_Update zeroTime inc high low cloze =
     (if ATR_Window inc \<le> 0 then None
      else case ATR_RMA inc of
        None \<Rightarrow> Some (inc\<lparr>ATR_RMA := Some (RMA_new zeroTime (ATR_Window inc)),
                          ATR_PreviousClose := cloze\<rparr>)
      | Some rma \<Rightarrow>
          (let trueRange = high - low;
               hc = \<bar>high - ATR_PreviousClose inc\<bar>;
               lc = \<bar>low - ATR_PreviousClose inc\<bar>;
               trueRange1 = (if trueRange < hc then hc else trueRange);
               trueRange2 = (if trueRange1 < lc then lc else trueRange1);
               rma' = RMA_Update rma trueRange2;
               atr = RMA_Last rma'
           in Some (inc\<lparr>ATR_PreviousClose := cloze, ATR_RMA := Some rma',
                        ATR_PercentageVolatility := Push (ATR_PercentageVolatility inc) (atr / cloze)\<rparr>)))"

definition ATR_Last :: "ATR \<Rightarrow> real" where
  "ATR_Last inc = (case ATR_RMA inc of None \<Rightarrow> 0 | Some rma \<Rightarrow> RMA_Last rma)"

definition ATR_EmitUpdate :: "ATR \<Rightarrow> real \<Rightarrow> ATR" where
  "ATR_EmitUpdate inc v = inc\<lparr>ATR_emitted := ATR_emitted inc @ [v]\<rparr>"

fun ATR_loop :: "Time \<Rightarrow> ATR \<Rightarrow> KLine list \<Rightarrow> ATR option" where
  "ATR_loop zeroTime inc [] = Some inc"
| "ATR_loop zeroTime inc (k # kLines) =
     (if ATR_EndTime inc \<noteq> zeroTime \<and> \<not> EndTime k > ATR_EndTime inc
      then ATR_loop zeroTime inc kLines
      else case ATR_Update zeroTime inc (High k) (Low k) (Close k) of
             None \<Rightarrow> None
           | Some inc' \<Rightarrow> ATR_loop zeroTime inc' kLines)"

definition ATR_calculateAndUpdate :: "Time \<Rightarrow> ATR \<Rightarrow> KLine list \<Rightarrow> ATR option" where
  "ATR_calculateAndUpdate zeroTime inc kLines =
     (case ATR_loop zeroTime inc kLines of
        None \<Rightarrow> None
      | Some inc1 \<Rightarrow>
          (let inc2 = ATR_EmitUpdate inc1 (ATR_Last inc1)
           in if kLines = [] then None
              else Some (inc2\<lparr>ATR_EndTime := EndTime (last kLines)\<rparr>)))"

subsection \<open>OBV (vidya.go, second part)\<close>

record OBV =
  OBV_Values :: Float64Slice
  OBV_PrePrice :: real
  OBV_EndTime :: Time
  OBV_emitted :: "real list"

definition OBV_Last :: "OBV \<Rightarrow> real" where
  "OBV_Last inc =
     (if length (OBV_Values inc) = 0 then 0 else OBV_Values inc ! (length (OBV_Values inc) - 1))"

definition OBV_Update :: "OBV \<Rightarrow> real \<Rightarrow> real \<Rightarrow> OBV" where
  "OBV_Update inc price volume =
     (if length (OBV_Values inc) = 0
      then inc\<lparr>OBV_PrePrice := price, OBV_Values := Push (OBV_Values inc) volume\<rparr>
      else if volume < OBV_PrePrice inc
      then inc\<lparr>OBV_Values := Push (OBV_Values inc) (OBV_Last inc - volume)\<rparr>
      else inc\<lparr>OBV_Values := Push (OBV_Values inc) (OBV_Last inc + volume)\<rparr>)"

text \<open>A fresh indicator (the zero value of the struct) and a run of \<^verbatim>\<open>Update\<close> calls.\<close>

definition OBV_new :: "Time \<Rightarrow> OBV" where
  "OBV_new zeroTime = \<lparr>OBV_Values = [], OBV_PrePrice = 0, OBV_EndTime = zeroTime, OBV_emitted = []\<rparr>"

definition OBV_updates :: "OBV \<Rightarrow> (real \<times> real) list \<Rightarrow> OBV" where
  "OBV_updates inc pvs = foldl (\<lambda>inc (price, volume). OBV_Update inc price volume) inc pvs"

subsection \<open>DEMA\<close>

text \<open>
  \<^verbatim>\<open>EWMA\<close> is not under src: its state is a type \<open>'e\<close> and its constructor (from the interval
  and the window), \<^verbatim>\<open>Update\<close> and \<^verbatim>\<open>Last\<close> are parameters. \<open>None\<close> in \<open>DEMA_a1\<close> is the nil pointer;
  calling a method through it panics.
\<close>

record 'e EWMAOps =
  EWMA_new :: "string \<Rightarrow> int \<Rightarrow> 'e"
  EWMA_Update :: "'e \<Rightarrow> real \<Rightarrow> 'e"
  EWMA_Last :: "'e \<Rightarrow> real"

record 'e DEMA =
  DEMA_Interval :: string
  DEMA_Window :: int
  DEMA_Values :: Float64Slice
  DEMA_a1 :: "'e option"
  DEMA_a2 :: "'e option"

definition DEMA_Update :: "Limits \<Rightarrow> 'e EWMAOps \<Rightarrow> 'e DEMA \<Rightarrow> real \<Rightarrow> 'e DEMA option" where
  "DEMA_Update c ewma inc value =
     (let inc1 = (if length (DEMA_Values inc) = 0
                  then inc\<lparr>DEMA_a1 := Some (EWMA_new ewma (DEMA_Interval inc) (DEMA_Window inc)),
                           DEMA_a2 := Some (EWMA_new ewma (DEMA_Interval inc) (DEMA_Window inc))\<rparr>
                  else inc)
      in case DEMA_a1 inc1 of
           None \<Rightarrow> None
         | Some a1 \<Rightarrow>
            (case DEMA_a2 inc1 of
               None \<Rightarrow> None
             | Some a2 \<Rightarrow>
                (let a1' = EWMA_Update ewma a1 value;
                     a2' = EWMA_Update ewma a2 (EWMA_Last ewma a1')
                 in case truncate_tail c
                           (Push (DEMA_Values inc1) (2 * EWMA_Last ewma a1' - EWMA_Last ewma a2')) of
                      None \<Rightarrow> None
                    | Some values' \<Rightarrow>
                        Some (inc1\<lparr>DEMA_a1 := Some a1', DEMA_a2 := Some a2',
                                   DEMA_Values := values'\<rparr>))))"

definition DEMA_new :: "string \<Rightarrow> int \<Rightarrow> 'e DEMA" where
  "DEMA_new interval window =
     \<lparr>DEMA_Interval = interval, DEMA_Window = window, DEMA_Values = [],
      DEMA_a1 = None, DEMA_a2 = None\<rparr>"

section \<open>Historical sync service (pkg/service/sync.go)\<close>

text \<open>
  The storage services and the exchange are collaborators of \<^verbatim>\<open>SyncService\<close>: each call to one
  of them is a parameter. \<open>queryLast\<close> is what \<^verbatim>\<open>QueryLast(exchange.Name(), symbol)\<close> returned:
  \<open>Inl err\<close> for a non-nil error, \<open>Inr None\<close> for no record, \<open>Inr (Some r)\<close> for the last
  persisted record. The queries sent to the exchange and the records inserted are returned
  with the error, so that they can be stated.
\<close>

datatype error = ContextCanceled | ContextDeadlineExceeded | Error string

text \<open>
  Modelled from the spec: \<^verbatim>\<open>types.Trade\<close> and \<^verbatim>\<open>types.TradeQueryOptions\<close>, reduced to the fields
  \<^verbatim>\<open>SyncTrades\<close> reads and writes. The \<^verbatim>\<open>int64\<close> trade ID is a 64-bit word (its two's complement
  bits); it is only copied.
\<close>

record Trade =
  ID :: "64 word"
  Time :: Time

record TradeQueryOptions =
  StartTime :: Time
  Limit :: int
  LastTradeID :: "64 word"

text \<open>
  A loop \<^verbatim>\<open>for _, r := range rs { if err := Insert(r); err != nil { return err } }\<close>:
  \<open>Insert\<close> sees the records inserted before, and answers \<open>Some err\<close> or \<open>None\<close> for nil.
\<close>

fun insert_each :: "('r list \<Rightarrow> 'r \<Rightarrow> error option) \<Rightarrow> 'r list \<Rightarrow> 'r list \<Rightarrow> error option \<times> 'r list" where
  "insert_each Insert stored [] = (None, stored)"
| "insert_each Insert stored (r # rs) =
     (case Insert stored r of
        Some err \<Rightarrow> (Some err, stored)
      | None \<Rightarrow> insert_each Insert (stored @ [r]) rs)"

definition SyncTrades ::
  "(error + Trade option) \<Rightarrow> (TradeQueryOptions \<Rightarrow> error + Trade list) \<Rightarrow>
   (Trade list \<Rightarrow> Trade \<Rightarrow> error option) \<Rightarrow> Time \<Rightarrow>
   (error option \<times> TradeQueryOptions list \<times> Trade list)" where
  "SyncTrades queryLast batchQueryTrades Insert startTime =
     (case queryLast of
        Inl err \<Rightarrow> (Some err, [], [])
      | Inr lastTrade \<Rightarrow>
          (let (lastID, startTime') =
                 (case lastTrade of
                    None \<Rightarrow> (0, startTime)
                  | Some t \<Rightarrow> (ID t, Time t));
               options = \<lparr>StartTime = startTime', Limit = 200, LastTradeID = lastID\<rparr>
           in case batchQueryTrades options of
                Inl err \<Rightarrow> (Some err, [options], [])
              | Inr trades \<Rightarrow>
                  (let (err, stored) = insert_each Insert [] trades
                   in (err, [options], stored))))"

text \<open>
  \<^verbatim>\<open>BatchQueryClosedOrders(ctx, symbol, startTime, time.Now(), lastID)\<close> returns two channels.
  What the loop of \<^verbatim>\<open>SyncOrders\<close> meets is a list of events: each order received from
  \<^verbatim>\<open>ordersC\<close>, with the signals that are ready when the \<^verbatim>\<open>select\<close> after it runs. \<open>ctxDone\<close> is
  \<open>Some (ctx.Err())\<close> when \<^verbatim>\<open>ctx.Done()\<close> is closed; \<open>errC\<close> is \<open>Some v\<close> when a receive from
  \<^verbatim>\<open>errC\<close> can proceed and yields \<open>v\<close> (\<open>None\<close> for a nil error).
\<close>

record ClosedOrdersQuery =
  since :: Time
  until :: Time
  lastOrderID :: "64 word"

record Signals =
  ctxDone :: "error option"
  errC :: "error option option"

text \<open>
  The \<^verbatim>\<open>select\<close> statement with the cases \<^verbatim>\<open><-ctx.Done()\<close>, \<^verbatim>\<open>err := <-errC\<close> and \<^verbatim>\<open>default\<close>.
  Go chooses among the cases that can proceed by a uniform pseudo-random selection, and
  takes \<^verbatim>\<open>default\<close> only if none can: the function gives the set of possible outcomes,
  \<open>Some r\<close> for \<^verbatim>\<open>return r\<close> and \<open>None\<close> for falling through.
\<close>

definition select_outcomes :: "Signals \<Rightarrow> error option option set" where
  "select_outcomes s =
     (case ctxDone s of Some e \<Rightarrow> {Some (Some e)} | None \<Rightarrow> {}) \<union>
     (case errC s of Some v \<Rightarrow> {Some v} | None \<Rightarrow> {}) \<union>
     (if ctxDone s = None \<and> errC s = None then {None} else {})"

text \<open>
  The loop \<^verbatim>\<open>for order := range ordersC\<close>: the set of possible results, each the returned error
  with the orders inserted.
\<close>

fun consume ::
  "(Order list \<Rightarrow> Order \<Rightarrow> error option) \<Rightarrow> Order list \<Rightarrow> (Order \<times> Signals) list \<Rightarrow>
   (error option \<times> Order list) set" where
  "consume Insert stored [] = {(None, stored)}"
| "consume Insert stored ((order, s) # events) =
     (\<Union>choice \<in> select_outcomes s.
        case choice of
          Some r \<Rightarrow> {(r, stored)}
        | None \<Rightarrow>
            (case Insert stored order of
               Some err \<Rightarrow> {(Some err, stored)}
             | None \<Rightarrow> consume Insert (stored @ [order]) events))"

definition SyncOrders ::
  "(error + Order option) \<Rightarrow> Time \<Rightarrow> (ClosedOrdersQuery \<Rightarrow> (Order \<times> Signals) list) \<Rightarrow>
   (Order list \<Rightarrow> Order \<Rightarrow> error option) \<Rightarrow> Time \<Rightarrow>
   (error option \<times> ClosedOrdersQuery list \<times> Order list) set" where
  "SyncOrders queryLast now batchQueryClosedOrders Insert startTime =
     (case queryLast of
        Inl err \<Rightarrow> {(Some err, [], [])}
      | Inr lastOrder \<Rightarrow>
          (let (lastID, startTime') =
                 (case lastOrder of
                    None \<Rightarrow> (0, startTime)
                  | Some order \<Rightarrow> (OrderID order, CreationTime order));
               query = \<lparr>since = startTime', until = now, lastOrderID = lastID\<rparr>
           in (\<lambda>(err, stored). (err, [query], stored)) `
                consume Insert [] (batchQueryClosedOrders query)))"

text \<open>
  \<^verbatim>\<open>NewEnvironment\<close> and \<^verbatim>\<open>SyncTradesFrom\<close> (the second part of trade.go), reduced to the
  field \<^verbatim>\<open>tradeScanTime\<close>, which \<^verbatim>\<open>Init\<close> passes to the trade sync as its start time.
  \<^verbatim>\<open>time.Now()\<close> is the parameter \<open>now\<close>, and \<^verbatim>\<open>AddDate\<close> of the standard library a parameter.
\<close>

record Environment =
  tradeScanTime :: Time

definition NewEnvironment :: "(Time \<Rightarrow> int \<Rightarrow> int \<Rightarrow> int \<Rightarrow> Time) \<Rightarrow> Time \<Rightarrow> Environment" where
  "NewEnvironment AddDate now = \<lparr>tradeScanTime = AddDate now 0 0 (- 7)\<rparr>"

definition SyncTradesFrom :: "Environment \<Rightarrow> Time \<Rightarrow> Environment" where
  "SyncTradesFrom environ t = environ\<lparr>tradeScanTime := t\<rparr>"

section \<open>Circuit break risk control\<close>

text \<open>
  Modelled from the spec: \<^verbatim>\<open>CircuitBreakRiskControl.IsHalted\<close>. Of the package only the test
  \<^verbatim>\<open>Test_IsHalted\<close> is under src. The definitions follow the computation the spec gives:
  "\<^verbatim>\<open>unrealizedPnL = position.base \<times> (markPrice - position.averageCost)\<close>",
  "\<^verbatim>\<open>totalPnL = unrealizedPnL + realizedPnL\<close>", "\<^verbatim>\<open>halted = totalPnL \<le> breakThreshold\<close>". The
  mark price is the last value of the price indicator and the realized P&L is
  \<^verbatim>\<open>ProfitStats.TodayPnL\<close>; amounts are real numbers. The spec's sentence "Zero position
  always yields \<^verbatim>\<open>halted = false\<close>" is a property it states of this computation, not a step
  of it, and is examined with the other properties.
\<close>

record Position =
  Base :: real
  AverageCost :: real

definition unrealizedPnL :: "Position \<Rightarrow> real \<Rightarrow> real" where
  "unrealizedPnL position markPrice = Base position * (markPrice - AverageCost position)"

definition totalPnL :: "Position \<Rightarrow> real \<Rightarrow> real \<Rightarrow> real" where
  "totalPnL position markPrice realizedPnL = unrealizedPnL position markPrice + realizedPnL"

definition IsHalted :: "Position \<Rightarrow> real \<Rightarrow> real \<Rightarrow> real \<Rightarrow> bool" where
  "IsHalted position markPrice realizedPnL breakThreshold =
     (totalPnL position markPrice realizedPnL \<le> breakThreshold)"

section \<open>Concrete inputs\<close>

text \<open>Concrete orders and a concrete book, for the instances evaluated below.\<close>

definition bid7 :: Order where
  "bid7 = \<lparr>OrderID = 7, Side = SideTypeBuy, Status = OrderStatusFilled, CreationTime = 0\<rparr>"

definition bid8 :: Order where
  "bid8 = \<lparr>OrderID = 8, Side = SideTypeBuy, Status = OrderStatusNew, CreationTime = 0\<rparr>"

definition ask9 :: Order where
  "ask9 = \<lparr>OrderID = 9, Side = SideTypeSell, Status = OrderStatusFilled, CreationTime = 0\<rparr>"

definition book1 :: LocalActiveOrderBook where
  "book1 = \<lparr>Bids = [7 \<mapsto> bid7, 8 \<mapsto> bid8], Asks = [9 \<mapsto> ask9]\<rparr>"

definition buy1 :: Order where
  "buy1 = \<lparr>OrderID = 1, Side = SideTypeBuy, Status = OrderStatusFilled, CreationTime = 0\<rparr>"

definition sell1 :: Order where
  "sell1 = \<lparr>OrderID = 1, Side = SideTypeSell, Status = OrderStatusNew, CreationTime = 0\<rparr>"

definition sell2 :: Order where
  "sell2 = \<lparr>OrderID = 2, Side = SideTypeSell, Status = OrderStatusFilled, CreationTime = 0\<rparr>"

text \<open>Concrete candles, limits and indicators, for the instances evaluated below.\<close>

definition kline :: "real \<Rightarrow> Time \<Rightarrow> KLine" where
  "kline price t = \<lparr>High = price + 1, Low = price - 1, Close = price, Volume = 10, EndTime = t\<rparr>"

definition limits1 :: Limits where
  "limits1 = \<lparr>MaxNumOfEWMA = 5000, MaxNumOfEWMATruncateSize = 100\<rparr>"

definition limits2 :: Limits where
  "limits2 = \<lparr>MaxNumOfEWMA = 3, MaxNumOfEWMATruncateSize = 2\<rparr>"

definition ops1 :: "real list SeriesOps" where
  "ops1 = \<lparr>Change = (\<lambda>s. map (\<lambda>i. s ! Suc i - s ! i) [0..<length s - 1]),
           Sum = (\<lambda>s n. sum_list (take (nat n) (rev s))),
           Abs = map abs\<rparr>"

definition vidya0 :: VIDYA where
  "vidya0 = \<lparr>VIDYA_Window = 3, VIDYA_Values = [], VIDYA_input = [], VIDYA_emitted = []\<rparr>"

definition cci0 :: CCI where
  "cci0 = \<lparr>CCI_Window = 2, CCI_Input = [], CCI_TypicalPrice = [], CCI_MA = [], CCI_Values = [],
           CCI_emitted = []\<rparr>"

definition rma1 :: RMA where
  "rma1 = \<lparr>RMA_Window = 2, RMA_Values = [0], RMA_counter = 1, RMA_Adjust = False,
           RMA_tmp = 100, RMA_sum = 1, RMA_EndTime = 60, RMA_emitted = [0]\<rparr>"

definition atr1 :: ATR where
  "atr1 = \<lparr>ATR_Window = 2, ATR_PercentageVolatility = [], ATR_PreviousClose = 100,
           ATR_RMA = Some (RMA_new 0 2), ATR_EndTime = 60, ATR_emitted = [0]\<rparr>"

definition ewma1 :: "real EWMAOps" where
  "ewma1 = \<lparr>EWMA_new = (\<lambda>interval window. 0), EWMA_Update = (\<lambda>e v. v), EWMA_Last = (\<lambda>e. e)\<rparr>"

definition dema3 :: "real DEMA" where
  "dema3 = \<lparr>DEMA_Interval = ''1m'', DEMA_Window = 3, DEMA_Values = [1, 2, 3],
            DEMA_a1 = Some 3, DEMA_a2 = Some 3\<rparr>"

definition dema4 :: "real DEMA" where
  "dema4 = \<lparr>DEMA_Interval = ''1m'', DEMA_Window = 3, DEMA_Values = [2, 3, 4],
            DEMA_a1 = Some 4, DEMA_a2 = Some 4\<rparr>"

definition trade1 :: Trade where
  "trade1 = \<lparr>ID = 42, Time = 1000\<rparr>"

definition order1 :: Order where
  "order1 = \<lparr>OrderID = 77, Side = SideTypeBuy, Status = OrderStatusFilled, CreationTime = 900\<rparr>"

definition quiet :: Signals where
  "quiet = \<lparr>ctxDone = None, errC = None\<rparr>"

definition cancelled :: Signals where
  "cancelled = \<lparr>ctxDone = Some ContextCanceled, errC = None\<rparr>"

definition failed :: Signals where
  "failed = \<lparr>ctxDone = None, errC = Some (Some (Error ''query failed''))\<rparr>"

definition cancelled_and_failed :: Signals where
  "cancelled_and_failed =
     \<lparr>ctxDone = Some ContextCanceled, errC = Some (Some (Error ''query failed''))\<rparr>"



section \<open>Properties of the order book\<close>

lemma keyed_ran:
  assumes "keyed_by_OrderID m" "v \<in> ran m"
  shows "m (OrderID v) = Some v"
  using assms by (auto simp: keyed_by_OrderID_def ran_def)

lemma WriteOff_sell:
  assumes filled: "Status order = OrderStatusFilled"
    and side: "Side order = SideTypeSell"
    and keyed: "keyed_by_OrderID (Bids b)"
    and af: "AnyFilled_contract anyFilled (Bids b)"
  shows "((\<exists>v. v \<in> ran (Bids b) \<and> Status v = OrderStatusFilled) \<longrightarrow>
            (\<exists>filledOrder. Bids b (OrderID filledOrder) = Some filledOrder \<and>
               Status filledOrder = OrderStatusFilled \<and>
               WriteOff anyFilled b order =
                 (True, \<lparr>Bids = (Bids b)(OrderID filledOrder := None),
                         Asks = (Asks b)(OrderID order := None)\<rparr>))) \<and>
         ((\<forall>v. v \<in> ran (Bids b) \<longrightarrow> Status v \<noteq> OrderStatusFilled) \<longrightarrow>
            WriteOff anyFilled b order = (False, b))"
proof (cases "anyFilled (Bids b)")
  case None
  with af have "\<forall>v \<in> ran (Bids b). Status v \<noteq> OrderStatusFilled"
    by (simp add: AnyFilled_contract_def)
  moreover from None filled side have "WriteOff anyFilled b order = (False, b)"
    by (simp add: WriteOff_def)
  ultimately show ?thesis by blast
next
  case (Some f)
  with af have f: "f \<in> ran (Bids b)" "Status f = OrderStatusFilled"
    by (simp_all add: AnyFilled_contract_def)
  from keyed f(1) have "Bids b (OrderID f) = Some f" by (rule keyed_ran)
  moreover from Some filled side have "WriteOff anyFilled b order =
      (True, \<lparr>Bids = (Bids b)(OrderID f := None), Asks = (Asks b)(OrderID order := None)\<rparr>)"
    by (simp add: WriteOff_def SyncOrderMap_Delete_def)
  ultimately show ?thesis using f by blast
qed

lemma WriteOff_buy:
  assumes filled: "Status order = OrderStatusFilled"
    and side: "Side order = SideTypeBuy"
    and keyed: "keyed_by_OrderID (Asks b)"
    and af: "AnyFilled_contract anyFilled (Asks b)"
  shows "((\<exists>v. v \<in> ran (Asks b) \<and> Status v = OrderStatusFilled) \<longrightarrow>
            (\<exists>filledOrder. Asks b (OrderID filledOrder) = Some filledOrder \<and>
               Status filledOrder = OrderStatusFilled \<and>
               WriteOff anyFilled b order =
                 (True, \<lparr>Bids = (Bids b)(OrderID order := None),
                         Asks = (Asks b)(OrderID filledOrder := None)\<rparr>))) \<and>
         ((\<forall>v. v \<in> ran (Asks b) \<longrightarrow> Status v \<noteq> OrderStatusFilled) \<longrightarrow>
            WriteOff anyFilled b order = (False, b))"
proof (cases "anyFilled (Asks b)")
  case None
  with af have "\<forall>v \<in> ran (Asks b). Status v \<noteq> OrderStatusFilled"
    by (simp add: AnyFilled_contract_def)
  moreover from None filled side have "WriteOff anyFilled b order = (False, b)"
    by (simp add: WriteOff_def)
  ultimately show ?thesis by blast
next
  case (Some f)
  with af have f: "f \<in> ran (Asks b)" "Status f = OrderStatusFilled"
    by (simp_all add: AnyFilled_contract_def)
  from keyed f(1) have "Asks b (OrderID f) = Some f" by (rule keyed_ran)
  moreover from Some filled side have "WriteOff anyFilled b order =
      (True, \<lparr>Bids = (Bids b)(OrderID order := None), Asks = (Asks b)(OrderID f := None)\<rparr>)"
    by (simp add: WriteOff_def SyncOrderMap_Delete_def)
  ultimately show ?thesis using f by blast
qed

text \<open>
  C2: for a filled sell order, if some order of \<open>Bids\<close> is filled then \<open>WriteOff\<close> deletes exactly
  one such filled bid (the binding of its OrderID) from \<open>Bids\<close>, deletes the OrderID of the
  order from \<open>Asks\<close> and returns true; if no order of \<open>Bids\<close> is filled it returns false and
  the book is unchanged. The same holds for a filled buy order against \<open>Asks\<close>. The searched
  map stores every order under its own OrderID and \<open>AnyFilled\<close> meets its contract on it.
\<close>

theorem WriteOff_filled_order:
  assumes "Status order = OrderStatusFilled"
  shows "(Side order = SideTypeSell \<and> keyed_by_OrderID (Bids b) \<and>
            AnyFilled_contract anyFilled (Bids b) \<longrightarrow>
          ((\<exists>v. v \<in> ran (Bids b) \<and> Status v = OrderStatusFilled) \<longrightarrow>
            (\<exists>filledOrder. Bids b (OrderID filledOrder) = Some filledOrder \<and>
               Status filledOrder = OrderStatusFilled \<and>
               WriteOff anyFilled b order =
                 (True, \<lparr>Bids = (Bids b)(OrderID filledOrder := None),
                         Asks = (Asks b)(OrderID order := None)\<rparr>))) \<and>
          ((\<forall>v. v \<in> ran (Bids b) \<longrightarrow> Status v \<noteq> OrderStatusFilled) \<longrightarrow>
            WriteOff anyFilled b order = (False, b))) \<and>
         (Side order = SideTypeBuy \<and> keyed_by_OrderID (Asks b) \<and>
            AnyFilled_contract anyFilled (Asks b) \<longrightarrow>
          ((\<exists>v. v \<in> ran (Asks b) \<and> Status v = OrderStatusFilled) \<longrightarrow>
            (\<exists>filledOrder. Asks b (OrderID filledOrder) = Some filledOrder \<and>
               Status filledOrder = OrderStatusFilled \<and>
               WriteOff anyFilled b order =
                 (True, \<lparr>Bids = (Bids b)(OrderID order := None),
                         Asks = (Asks b)(OrderID filledOrder := None)\<rparr>))) \<and>
          ((\<forall>v. v \<in> ran (Asks b) \<longrightarrow> Status v \<noteq> OrderStatusFilled) \<longrightarrow>
            WriteOff anyFilled b order = (False, b)))"
  using WriteOff_sell [OF assms, of b anyFilled] WriteOff_buy [OF assms, of b anyFilled]
  by blast


text \<open>
  An instance: bids 7 (filled) and 8 (new), ask 9; the filled ask 9 writes off bid 7.
\<close>

lemma book1_keyed: "keyed_by_OrderID (Bids book1)"
  by (simp add: keyed_by_OrderID_def book1_def bid7_def bid8_def)

lemma book1_contract: "AnyFilled_contract (\<lambda>m. m 7) (Bids book1)"
  by (simp add: AnyFilled_contract_def book1_def bid7_def bid8_def ran_def) 

lemma book1_has: "\<exists>v. v \<in> ran (Bids book1) \<and> Status v = OrderStatusFilled"
  by (rule exI [of _ bid7]) (auto simp add: book1_def bid7_def bid8_def ran_def)

theorem WriteOff_filled_order_witness:
  "Status ask9 = OrderStatusFilled \<and> Side ask9 = SideTypeSell \<and>
   keyed_by_OrderID (Bids book1) \<and> AnyFilled_contract (\<lambda>m. m 7) (Bids book1) \<and>
   (\<exists>v. v \<in> ran (Bids book1) \<and> Status v = OrderStatusFilled) \<and>
   WriteOff (\<lambda>m. m 7) book1 ask9 = (True, \<lparr>Bids = [8 \<mapsto> bid8], Asks = Map.empty\<rparr>)"
proof -
  have s: "Status ask9 = OrderStatusFilled" and d: "Side ask9 = SideTypeSell"
    by (simp_all add: ask9_def)
  from WriteOff_filled_order [OF s, of "book1" "\<lambda>m. m 7"] d book1_keyed book1_contract book1_has
  obtain f where f: "Bids book1 (OrderID f) = Some f" "Status f = OrderStatusFilled"
     "WriteOff (\<lambda>m. m 7) book1 ask9 =
                 (True, \<lparr>Bids = (Bids book1)(OrderID f := None),
                         Asks = (Asks book1)(OrderID ask9 := None)\<rparr>)" by blast
  from f(1,2) have "f = bid7"
    by (auto simp add: book1_def bid7_def bid8_def split: if_splits)
  with f(3) have "WriteOff (\<lambda>m. m 7) book1 ask9 = (True, \<lparr>Bids = [8 \<mapsto> bid8], Asks = Map.empty\<rparr>)"
    by (simp add: book1_def bid7_def ask9_def fun_upd_twist)
  with s d book1_keyed book1_contract book1_has show ?thesis by blast
qed

lemma dom_Add_order:
  "dom (Bids (Add_order b x)) \<subseteq> dom (Bids b) \<union> OrderID ` {y \<in> {x}. Side y = SideTypeBuy}"
  "dom (Asks (Add_order b x)) \<subseteq> dom (Asks b) \<union> OrderID ` {y \<in> {x}. Side y = SideTypeSell}"
  by (auto simp: Add_order_def SyncOrderMap_Add_def split: SideType.splits)

lemma subset_chain:
  "A \<subseteq> B \<union> Y \<Longrightarrow> B \<subseteq> C \<union> X \<Longrightarrow> A \<subseteq> C \<union> (X \<union> Y)"
  by blast

lemma ids_Un:
  "OrderID ` {y \<in> A \<union> B. P y} = OrderID ` {y \<in> A. P y} \<union> OrderID ` {y \<in> B. P y}"
  by blast

lemma dom_Add:
  "dom (Bids (Add b xs)) \<subseteq> dom (Bids b) \<union> OrderID ` {y \<in> set xs. Side y = SideTypeBuy} \<and>
   dom (Asks (Add b xs)) \<subseteq> dom (Asks b) \<union> OrderID ` {y \<in> set xs. Side y = SideTypeSell}"
proof (induction xs rule: rev_induct)
  case Nil
  show ?case by (simp add: Add_def)
next
  case (snoc x xs)
  note st = dom_Add_order [of "Add b xs" x]
  have run: "Add b (xs @ [x]) = Add_order (Add b xs) x"
    by (simp add: Add_def)
  have added: "set (xs @ [x]) = set xs \<union> {x}"
    by simp
  show ?case
    unfolding run added ids_Un
    using subset_chain [OF st(1) conjunct1 [OF snoc.IH]]
      subset_chain [OF st(2) conjunct2 [OF snoc.IH]]
    by (rule conjI)
qed

lemma dom_Delete:
  "dom (Bids (Delete b x)) \<subseteq> dom (Bids b)" "dom (Asks (Delete b x)) \<subseteq> dom (Asks b)"
  by (auto simp: Delete_def SyncOrderMap_Delete_def split: SideType.splits if_splits)

lemma dom_WriteOff:
  "dom (Bids (snd (WriteOff anyFilled b x))) \<subseteq> dom (Bids b)"
  "dom (Asks (snd (WriteOff anyFilled b x))) \<subseteq> dom (Asks b)"
  by (auto simp: WriteOff_def SyncOrderMap_Delete_def split: SideType.splits option.splits if_splits)

lemma dom_apply_op:
  "dom (Bids (apply_op b op)) \<subseteq>
     dom (Bids b) \<union> OrderID ` {y \<in> set (added_orders [op]). Side y = SideTypeBuy} \<and>
   dom (Asks (apply_op b op)) \<subseteq>
     dom (Asks b) \<union> OrderID ` {y \<in> set (added_orders [op]). Side y = SideTypeSell}"
proof (cases op)
  case (OpAdd xs)
  then show ?thesis using dom_Add [of b xs] by simp
next
  case (OpDelete x)
  then show ?thesis using dom_Delete [of b x] by auto
next
  case (OpWriteOff f x)
  then show ?thesis using dom_WriteOff [of f b x] by auto
qed

lemma added_orders_append: "added_orders (xs @ ys) = added_orders xs @ added_orders ys"
  by (induction xs rule: added_orders.induct) simp_all

lemma dom_run_ops:
  "dom (Bids (run_ops b ops)) \<subseteq>
     dom (Bids b) \<union> OrderID ` {y \<in> set (added_orders ops). Side y = SideTypeBuy} \<and>
   dom (Asks (run_ops b ops)) \<subseteq>
     dom (Asks b) \<union> OrderID ` {y \<in> set (added_orders ops). Side y = SideTypeSell}"
proof (induction ops rule: rev_induct)
  case Nil
  show ?case by (simp add: run_ops_def)
next
  case (snoc op ops)
  note st = dom_apply_op [of "run_ops b ops" op]
  have run: "run_ops b (ops @ [op]) = apply_op (run_ops b ops) op"
    by (simp add: run_ops_def)
  have added: "set (added_orders (ops @ [op])) = set (added_orders ops) \<union> set (added_orders [op])"
    by (simp add: added_orders_append)
  show ?case
    unfolding run added ids_Un
    using subset_chain [OF conjunct1 [OF st] conjunct1 [OF snoc.IH]]
      subset_chain [OF conjunct2 [OF st] conjunct2 [OF snoc.IH]]
    by (rule conjI)
qed

text \<open>
  C8 (as amended): for every sequence of \<open>Add\<close>, \<open>Delete\<close> and \<open>WriteOff\<close> calls on the empty
  book in which no OrderID is passed to \<open>Add\<close> with two different sides, no OrderID is in
  \<open>Bids\<close> and in \<open>Asks\<close> at the same time, whatever \<open>AnyFilled\<close> returns.
\<close>

theorem disjoint_sides:
  assumes "one_side_per_OrderID (added_orders ops)"
  shows "dom (Bids (run_ops NewLocalActiveOrderBook ops)) \<inter>
         dom (Asks (run_ops NewLocalActiveOrderBook ops)) = {}"
proof -
  let ?b = "run_ops NewLocalActiveOrderBook ops"
  have bids: "dom (Bids ?b) \<subseteq> OrderID ` {y \<in> set (added_orders ops). Side y = SideTypeBuy}"
    and asks: "dom (Asks ?b) \<subseteq> OrderID ` {y \<in> set (added_orders ops). Side y = SideTypeSell}"
    using dom_run_ops [of NewLocalActiveOrderBook ops]
    by (simp_all add: NewLocalActiveOrderBook_def NewSyncOrderMap_def)
  { fix k
    assume kb: "k \<in> dom (Bids ?b)" and ka: "k \<in> dom (Asks ?b)"
    from kb bids have "k \<in> OrderID ` {y \<in> set (added_orders ops). Side y = SideTypeBuy}" ..
    then obtain x where x: "x \<in> set (added_orders ops)" "Side x = SideTypeBuy" "OrderID x = k"
      by blast
    from ka asks have "k \<in> OrderID ` {y \<in> set (added_orders ops). Side y = SideTypeSell}" ..
    then obtain y where y: "y \<in> set (added_orders ops)" "Side y = SideTypeSell" "OrderID y = k"
      by blast
    from assms have "\<forall>x \<in> set (added_orders ops). \<forall>y \<in> set (added_orders ops).
        OrderID x = OrderID y \<longrightarrow> Side x = Side y"
      unfolding one_side_per_OrderID_def .
    then have "\<forall>y \<in> set (added_orders ops). OrderID x = OrderID y \<longrightarrow> Side x = Side y"
      using x(1) by (rule bspec)
    then have "OrderID x = OrderID y \<longrightarrow> Side x = Side y"
      using y(1) by (rule bspec)
    with x(3) y(3) have "Side x = Side y" by simp
    with x(2) y(2) have False by simp
  }
  then show ?thesis by blast
qed

lemma keyed_Add_order:
  assumes "keyed_by_OrderID (Bids b)" "keyed_by_OrderID (Asks b)"
  shows "keyed_by_OrderID (Bids (Add_order b x)) \<and> keyed_by_OrderID (Asks (Add_order b x))"
  using assms
  by (auto simp: keyed_by_OrderID_def Add_order_def SyncOrderMap_Add_def
      split: SideType.splits if_splits)

lemma keyed_Add:
  assumes "keyed_by_OrderID (Bids b)" "keyed_by_OrderID (Asks b)"
  shows "keyed_by_OrderID (Bids (Add b xs)) \<and> keyed_by_OrderID (Asks (Add b xs))"
  using assms unfolding Add_def
proof (induction xs arbitrary: b)
  case Nil
  then show ?case by simp
next
  case (Cons x xs)
  from keyed_Add_order [OF Cons.prems] Cons.IH [of "Add_order b x"]
  show ?case by simp
qed

lemma keyed_Delete:
  assumes "keyed_by_OrderID (Bids b)" "keyed_by_OrderID (Asks b)"
  shows "keyed_by_OrderID (Bids (Delete b x)) \<and> keyed_by_OrderID (Asks (Delete b x))"
  using assms
  by (auto simp: keyed_by_OrderID_def Delete_def SyncOrderMap_Delete_def
      split: SideType.splits if_splits)

lemma keyed_WriteOff:
  assumes "keyed_by_OrderID (Bids b)" "keyed_by_OrderID (Asks b)"
  shows "keyed_by_OrderID (Bids (snd (WriteOff f b x))) \<and>
         keyed_by_OrderID (Asks (snd (WriteOff f b x)))"
  using assms
  by (auto simp: keyed_by_OrderID_def WriteOff_def SyncOrderMap_Delete_def
      split: SideType.splits option.splits if_splits)

lemma keyed_apply_op:
  assumes "keyed_by_OrderID (Bids b)" "keyed_by_OrderID (Asks b)"
  shows "keyed_by_OrderID (Bids (apply_op b op)) \<and> keyed_by_OrderID (Asks (apply_op b op))"
proof (cases op)
  case (OpAdd xs)
  then show ?thesis using keyed_Add [OF assms, of xs] by simp
next
  case (OpDelete x)
  then show ?thesis using keyed_Delete [OF assms, of x] by simp
next
  case (OpWriteOff f x)
  then show ?thesis using keyed_WriteOff [OF assms, of f x] by simp
qed

lemma keyed_run_ops:
  "keyed_by_OrderID (Bids (run_ops NewLocalActiveOrderBook ops)) \<and>
   keyed_by_OrderID (Asks (run_ops NewLocalActiveOrderBook ops))"
proof (induction ops rule: rev_induct)
  case Nil
  show ?case
    by (simp add: run_ops_def NewLocalActiveOrderBook_def NewSyncOrderMap_def keyed_by_OrderID_def)
next
  case (snoc op ops)
  then show ?case using keyed_apply_op [of "run_ops NewLocalActiveOrderBook ops" op]
    by (simp add: run_ops_def)
qed

theorem disjoint_sides_witness:
  "one_side_per_OrderID (added_orders [OpAdd [buy1, sell2], OpWriteOff (\<lambda>m. m 1) sell2, OpDelete buy1]) \<and>
   dom (Bids (run_ops NewLocalActiveOrderBook [OpAdd [buy1, sell2], OpWriteOff (\<lambda>m. m 1) sell2, OpDelete buy1])) \<inter>
   dom (Asks (run_ops NewLocalActiveOrderBook [OpAdd [buy1, sell2], OpWriteOff (\<lambda>m. m 1) sell2, OpDelete buy1])) = {}"
proof -
  have h: "one_side_per_OrderID (added_orders [OpAdd [buy1, sell2], OpWriteOff (\<lambda>m. m 1) sell2, OpDelete buy1])"
    by (simp add: one_side_per_OrderID_def buy1_def sell2_def)
  from disjoint_sides [OF h] h show ?thesis by simp
qed

text \<open>
  C8 as stated fails: \<open>Add\<close> does not look at the other side, so adding OrderID 1 as a buy
  and then as a sell leaves it in both maps.
\<close>

theorem both_sides_counterexample:
  "dom (Bids (run_ops NewLocalActiveOrderBook [OpAdd [buy1], OpAdd [sell1]])) \<inter>
   dom (Asks (run_ops NewLocalActiveOrderBook [OpAdd [buy1], OpAdd [sell1]])) = {1}"
  by (simp add: run_ops_def Add_def Add_order_def SyncOrderMap_Add_def buy1_def sell1_def
      NewLocalActiveOrderBook_def NewSyncOrderMap_def)

text \<open>
  C10: for an order that is not filled, and for a filled order whose side is neither buy nor
  sell, \<open>WriteOff\<close> returns false and leaves \<open>Bids\<close> and \<open>Asks\<close> as they are, whatever the book
  holds and whatever \<open>AnyFilled\<close> would return.
\<close>

theorem WriteOff_refuses:
  assumes "Status order \<noteq> OrderStatusFilled \<or>
           (Side order \<noteq> SideTypeBuy \<and> Side order \<noteq> SideTypeSell)"
  shows "WriteOff anyFilled b order = (False, b)"
  using assms by (auto simp: WriteOff_def split: SideType.splits)


theorem WriteOff_refuses_witness:
  "Status bid8 \<noteq> OrderStatusFilled \<and>
   WriteOff (\<lambda>m. m 7) book1 bid8 = (False, book1) \<and>
   Side (ask9\<lparr>Side := SideTypeOther ''SELF''\<rparr>) \<noteq> SideTypeBuy \<and>
   Side (ask9\<lparr>Side := SideTypeOther ''SELF''\<rparr>) \<noteq> SideTypeSell \<and>
   WriteOff (\<lambda>m. m 7) book1 (ask9\<lparr>Side := SideTypeOther ''SELF''\<rparr>) = (False, book1)"
proof -
  have a: "Status bid8 \<noteq> OrderStatusFilled"
    by (simp add: bid8_def)
  have b: "Side (ask9\<lparr>Side := SideTypeOther ''SELF''\<rparr>) \<noteq> SideTypeBuy \<and>
      Side (ask9\<lparr>Side := SideTypeOther ''SELF''\<rparr>) \<noteq> SideTypeSell"
    by simp
  from WriteOff_refuses [of bid8 "\<lambda>m. m 7" book1] a
    WriteOff_refuses [of "ask9\<lparr>Side := SideTypeOther ''SELF''\<rparr>" "\<lambda>m. m 7" book1] b
  show ?thesis by blast
qed

section \<open>Properties of the indicators\<close>

lemma feed_append:
  "feed step inc (xs @ ys) =
     (case feed step inc xs of None \<Rightarrow> None | Some inc' \<Rightarrow> feed step inc' ys)"
  by (induction xs arbitrary: inc) (simp_all split: option.splits)

lemma feed_last:
  assumes steady: "\<And>s w. \<not> fresh s \<Longrightarrow> w \<noteq> [] \<Longrightarrow> calc s w = step s (last w)"
    and keeps: "\<And>s k s'. step s k = Some s' \<Longrightarrow> \<not> fresh s'"
    and "\<not> fresh inc" and "\<forall>w \<in> set ws. w \<noteq> []"
  shows "feed calc inc ws = feed step inc (map last ws)"
  using assms(3,4)
proof (induction ws arbitrary: inc)
  case Nil
  show ?case by simp
next
  case (Cons w ws)
  from Cons.prems have w: "calc inc w = step inc (last w)"
    by (simp add: steady)
  show ?case
  proof (cases "step inc (last w)")
    case None
    with w show ?thesis by simp
  next
    case (Some inc')
    with keeps have "\<not> fresh inc'" by blast
    with Cons.IH [of inc'] Cons.prems have "feed calc inc' ws = feed step inc' (map last ws)"
      by simp
    with w Some show ?thesis by simp
  qed
qed

lemma cold_then_steady:
  assumes cold: "\<And>s w. fresh s \<Longrightarrow> calc s w = feed step s w"
    and steady: "\<And>s w. \<not> fresh s \<Longrightarrow> w \<noteq> [] \<Longrightarrow> calc s w = step s (last w)"
    and keeps: "\<And>s k s'. step s k = Some s' \<Longrightarrow> \<not> fresh s'"
    and "fresh inc" and "hist \<noteq> []" and "\<forall>w \<in> set ws. w \<noteq> []"
  shows "feed calc inc (hist # ws) = calc inc (hist @ map last ws)"
proof (cases "feed step inc hist")
  case None
  with cold [OF \<open>fresh inc\<close>] show ?thesis by (simp add: feed_append)
next
  case (Some inc')
  have "\<not> fresh inc'"
  proof -
    from \<open>hist \<noteq> []\<close> obtain ks k where hist: "hist = ks @ [k]"
      by (metis rev_exhaust)
    with Some obtain s where "step s k = Some inc'"
      by (auto simp: feed_append split: option.splits)
    with keeps show ?thesis by blast
  qed
  from steady keeps this \<open>\<forall>w \<in> set ws. w \<noteq> []\<close>
  have "feed calc inc' ws = feed step inc' (map last ws)" by (rule feed_last)
  with Some cold [OF \<open>fresh inc\<close>] show ?thesis by (simp add: feed_append)
qed

lemma VIDYA_replay_feed: "VIDYA_replay c ops inc ks = feed (\<lambda>inc k. VIDYA_Update_Emit c ops inc (Close k)) inc ks"
  by (induction ks arbitrary: inc) (simp_all split: option.splits)

lemma CCI_replay_feed: "CCI_replay c inc ks = feed (\<lambda>inc k. CCI_Update_Emit c inc (typical_price k)) inc ks"
  by (induction ks arbitrary: inc) (simp_all split: option.splits)

lemma truncate_tail_nonempty:
  assumes "truncate_tail c s = Some s'" "s \<noteq> []"
    "0 < MaxNumOfEWMATruncateSize c" "MaxNumOfEWMATruncateSize c \<le> MaxNumOfEWMA c + 1"
  shows "s' \<noteq> []"
  using assms by (auto simp: truncate_tail_def slice_from_def split: if_splits)

lemma VIDYA_Update_input:
  assumes "VIDYA_Update c ops inc x = Some inc'"
    "0 < MaxNumOfEWMATruncateSize c" "MaxNumOfEWMATruncateSize c \<le> MaxNumOfEWMA c + 1"
  shows "VIDYA_input inc' \<noteq> []"
proof (cases "Length (VIDYA_Values inc) = 0")
  case True
  with assms(1) show ?thesis by (auto simp: VIDYA_Update_def Push_def)
next
  case False
  with assms(1) obtain input' where "truncate_tail c (Push (VIDYA_input inc) x) = Some input'"
    and "VIDYA_input inc' = input'"
    by (auto simp: VIDYA_Update_def Let_def split: Option.bind_splits)
  with truncate_tail_nonempty [OF this(1) _ assms(2,3)] show ?thesis
    by (simp add: Push_def)
qed

lemma VIDYA_Update_Emit_input:
  assumes "VIDYA_Update_Emit c ops inc x = Some inc'"
    "0 < MaxNumOfEWMATruncateSize c" "MaxNumOfEWMATruncateSize c \<le> MaxNumOfEWMA c + 1"
  shows "Length (VIDYA_input inc') \<noteq> 0"
  using assms VIDYA_Update_input [of c ops inc x]
  by (auto simp: VIDYA_Update_Emit_def VIDYA_EmitUpdate_def Length_def split: option.splits)

lemma CCI_Update_TypicalPrice:
  assumes "CCI_Update c inc x = Some inc'"
  shows "CCI_TypicalPrice inc' \<noteq> []"
  using assms
  by (auto simp: CCI_Update_def Let_def Push_def split: if_splits Option.bind_splits)

lemma CCI_Update_Emit_TypicalPrice:
  assumes "CCI_Update_Emit c inc x = Some inc'"
  shows "Length (CCI_TypicalPrice inc') \<noteq> 0"
  using assms CCI_Update_TypicalPrice [of c inc x]
  by (auto simp: CCI_Update_Emit_def CCI_EmitUpdate_def Length_def split: option.splits)

lemma VIDYA_cold_steady:
  assumes "0 < MaxNumOfEWMATruncateSize c" "MaxNumOfEWMATruncateSize c \<le> MaxNumOfEWMA c + 1"
    and "VIDYA_input inc = []" "hist \<noteq> []" "\<forall>w \<in> set ws. w \<noteq> []"
  shows "feed (VIDYA_calculateAndUpdate c ops) inc (hist # ws) =
         VIDYA_calculateAndUpdate c ops inc (hist @ map last ws)"
proof (rule cold_then_steady [where fresh = "\<lambda>inc. Length (VIDYA_input inc) = 0"
      and step = "\<lambda>inc k. VIDYA_Update_Emit c ops inc (Close k)"])
  show "\<And>s w. Length (VIDYA_input s) = 0 \<Longrightarrow> VIDYA_calculateAndUpdate c ops s w =
      feed (\<lambda>inc k. VIDYA_Update_Emit c ops inc (Close k)) s w"
    by (simp add: VIDYA_calculateAndUpdate_def VIDYA_replay_feed)
  show "\<And>s w. Length (VIDYA_input s) \<noteq> 0 \<Longrightarrow> w \<noteq> [] \<Longrightarrow>
      VIDYA_calculateAndUpdate c ops s w = VIDYA_Update_Emit c ops s (Close (last w))"
    by (simp add: VIDYA_calculateAndUpdate_def)
  show "\<And>s k s'. VIDYA_Update_Emit c ops s (Close k) = Some s' \<Longrightarrow> Length (VIDYA_input s') \<noteq> 0"
    by (rule VIDYA_Update_Emit_input [OF _ assms(1,2)])
  show "Length (VIDYA_input inc) = 0" using assms(3) by (simp add: Length_def)
  show "hist \<noteq> []" by fact
  show "\<forall>w \<in> set ws. w \<noteq> []" by fact
qed

lemma CCI_cold_steady:
  assumes "CCI_TypicalPrice inc = []" "hist \<noteq> []" "\<forall>w \<in> set ws. w \<noteq> []"
  shows "feed (CCI_calculateAndUpdate c) inc (hist # ws) =
         CCI_calculateAndUpdate c inc (hist @ map last ws)"
proof (rule cold_then_steady [where fresh = "\<lambda>inc. Length (CCI_TypicalPrice inc) = 0"
      and step = "\<lambda>inc k. CCI_Update_Emit c inc (typical_price k)"])
  show "\<And>s w. Length (CCI_TypicalPrice s) = 0 \<Longrightarrow> CCI_calculateAndUpdate c s w =
      feed (\<lambda>inc k. CCI_Update_Emit c inc (typical_price k)) s w"
    by (simp add: CCI_calculateAndUpdate_def CCI_replay_feed)
  show "\<And>s w. Length (CCI_TypicalPrice s) \<noteq> 0 \<Longrightarrow> w \<noteq> [] \<Longrightarrow>
      CCI_calculateAndUpdate c s w = CCI_Update_Emit c s (typical_price (last w))"
    by (simp add: CCI_calculateAndUpdate_def)
  show "\<And>s k s'. CCI_Update_Emit c s (typical_price k) = Some s' \<Longrightarrow> Length (CCI_TypicalPrice s') \<noteq> 0"
    by (rule CCI_Update_Emit_TypicalPrice)
  show "Length (CCI_TypicalPrice inc) = 0" using assms(1) by (simp add: Length_def)
  show "hist \<noteq> []" by fact
  show "\<forall>w \<in> set ws. w \<noteq> []" by fact
qed

lemma truncate_tail_returns:
  assumes "0 < MaxNumOfEWMATruncateSize c" "MaxNumOfEWMATruncateSize c \<le> MaxNumOfEWMA c + 2"
  shows "truncate_tail c s =
    Some (if int (length s) > MaxNumOfEWMA c then drop (nat (MaxNumOfEWMATruncateSize c - 1)) s else s)"
  using assms by (auto simp: truncate_tail_def slice_from_def)

lemma VIDYA_Update_returns:
  assumes "0 < MaxNumOfEWMATruncateSize c" "MaxNumOfEWMATruncateSize c \<le> MaxNumOfEWMA c + 2"
  shows "\<exists>inc'. VIDYA_Update c ops inc x = Some inc'"
  by (simp add: VIDYA_Update_def Let_def truncate_tail_returns [OF assms])

lemma VIDYA_replay_returns:
  assumes "0 < MaxNumOfEWMATruncateSize c" "MaxNumOfEWMATruncateSize c \<le> MaxNumOfEWMA c + 2"
  shows "\<exists>inc'. VIDYA_replay c ops inc ks = Some inc'"
proof (induction ks arbitrary: inc)
  case Nil
  show ?case by simp
next
  case (Cons k ks)
  from VIDYA_Update_returns [OF assms] obtain inc1
    where "VIDYA_Update c ops inc (Close k) = Some inc1" by blast
  with Cons.IH show ?case by (simp add: VIDYA_Update_Emit_def)
qed

text \<open>
  C3: an indicator that has not been updated (VIDYA: empty \<open>input\<close>; CCI: empty
  \<open>TypicalPrice\<close>) is given a first non-empty window \<open>hist\<close> and then, one at a time, windows
  \<open>ws\<close> that each end in one more closed candle. The cold-start path consumes all of \<open>hist\<close>,
  the steady-state path only the last candle of each later window, and the indicator ends
  in the state (values, inputs and emitted updates) that the cold-start path alone gives on
  the whole sequence \<open>hist @ map last ws\<close>. With \<open>hist\<close> the first candle alone this is feeding
  the candles one at a time. For VIDYA the limits must leave a value after a truncation
  (\<open>0 < MaxNumOfEWMATruncateSize \<le> MaxNumOfEWMA + 1\<close>), and then no call panics.
\<close>

theorem cold_start_steady_state:
  "(0 < MaxNumOfEWMATruncateSize c \<and> MaxNumOfEWMATruncateSize c \<le> MaxNumOfEWMA c + 1 \<and>
    VIDYA_input vidya = [] \<and> hist \<noteq> [] \<and> (\<forall>w \<in> set ws. w \<noteq> []) \<longrightarrow>
      feed (VIDYA_calculateAndUpdate c ops) vidya (hist # ws) =
        VIDYA_calculateAndUpdate c ops vidya (hist @ map last ws) \<and>
      (\<exists>inc'. VIDYA_calculateAndUpdate c ops vidya (hist @ map last ws) = Some inc')) \<and>
   (CCI_TypicalPrice cci = [] \<and> hist \<noteq> [] \<and> (\<forall>w \<in> set ws. w \<noteq> []) \<longrightarrow>
      feed (CCI_calculateAndUpdate c) cci (hist # ws) =
        CCI_calculateAndUpdate c cci (hist @ map last ws))"
proof (intro conjI impI)
  assume h: "0 < MaxNumOfEWMATruncateSize c \<and> MaxNumOfEWMATruncateSize c \<le> MaxNumOfEWMA c + 1 \<and>
    VIDYA_input vidya = [] \<and> hist \<noteq> [] \<and> (\<forall>w \<in> set ws. w \<noteq> [])"
  then show "feed (VIDYA_calculateAndUpdate c ops) vidya (hist # ws) =
      VIDYA_calculateAndUpdate c ops vidya (hist @ map last ws)"
    using VIDYA_cold_steady [of c vidya hist ws ops] by blast
  from h have "MaxNumOfEWMATruncateSize c \<le> MaxNumOfEWMA c + 2" by simp
  with h VIDYA_replay_returns [of c ops vidya "hist @ map last ws"]
  show "\<exists>inc'. VIDYA_calculateAndUpdate c ops vidya (hist @ map last ws) = Some inc'"
    by (simp add: VIDYA_calculateAndUpdate_def Length_def)
next
  assume "CCI_TypicalPrice cci = [] \<and> hist \<noteq> [] \<and> (\<forall>w \<in> set ws. w \<noteq> [])"
  then show "feed (CCI_calculateAndUpdate c) cci (hist # ws) =
      CCI_calculateAndUpdate c cci (hist @ map last ws)"
    using CCI_cold_steady [of cci hist ws c] by blast
qed

lemma upt_2: "[0..<2] = [0, Suc 0]"
  by (simp add: upt_rec numeral_2_eq_2)

lemma CCI_instance:
  "CCI_calculateAndUpdate limits1 cci0 [kline 100 60, kline 104 120, kline 102 180] =
   Some \<lparr>CCI_Window = 2, CCI_Input = [100, 104, 102], CCI_TypicalPrice = [100, 204, 206],
     CCI_MA = [102, 103], CCI_Values = [200 / 3, - 200 / 3],
     CCI_emitted = [0, 200 / 3, - 200 / 3]\<rparr>"
  by (simp add: CCI_calculateAndUpdate_def CCI_Update_Emit_def CCI_Update_def
      CCI_EmitUpdate_def CCI_Last_def cci0_def limits1_def typical_price_def kline_def
      Length_def Push_def Last_def Index_def truncate_tail_def Let_def upt_2)

lemma VIDYA_instance:
  "VIDYA_calculateAndUpdate limits1 ops1 vidya0 [kline 100 60, kline 104 120, kline 102 180] =
   Some \<lparr>VIDYA_Window = 3, VIDYA_Values = [100, 102, 102],
     VIDYA_input = [100, 104, 102], VIDYA_emitted = [100, 102, 102]\<rparr>"
  by (simp add: VIDYA_calculateAndUpdate_def VIDYA_Update_Emit_def VIDYA_Update_def
      VIDYA_EmitUpdate_def VIDYA_Last_def vidya0_def limits1_def ops1_def kline_def
      Length_def Push_def Last_def truncate_tail_def Let_def)

theorem cold_start_steady_state_witness:
  "0 < MaxNumOfEWMATruncateSize limits1 \<and>
   MaxNumOfEWMATruncateSize limits1 \<le> MaxNumOfEWMA limits1 + 1 \<and>
   VIDYA_input vidya0 = [] \<and> CCI_TypicalPrice cci0 = [] \<and>
   feed (VIDYA_calculateAndUpdate limits1 ops1) vidya0
     [[kline 100 60], [kline 100 60, kline 104 120],
      [kline 100 60, kline 104 120, kline 102 180]] =
     Some \<lparr>VIDYA_Window = 3, VIDYA_Values = [100, 102, 102],
       VIDYA_input = [100, 104, 102], VIDYA_emitted = [100, 102, 102]\<rparr> \<and>
   VIDYA_calculateAndUpdate limits1 ops1 vidya0 [kline 100 60, kline 104 120, kline 102 180] =
     Some \<lparr>VIDYA_Window = 3, VIDYA_Values = [100, 102, 102],
       VIDYA_input = [100, 104, 102], VIDYA_emitted = [100, 102, 102]\<rparr> \<and>
   feed (CCI_calculateAndUpdate limits1) cci0
     [[kline 100 60], [kline 100 60, kline 104 120],
      [kline 100 60, kline 104 120, kline 102 180]] =
     CCI_calculateAndUpdate limits1 cci0 [kline 100 60, kline 104 120, kline 102 180] \<and>
   CCI_Values (the (CCI_calculateAndUpdate limits1 cci0
     [kline 100 60, kline 104 120, kline 102 180])) = [200 / 3, - 200 / 3]"
proof -
  let ?hist = "[kline 100 60]"
  let ?ws = "[[kline 100 60, kline 104 120], [kline 100 60, kline 104 120, kline 102 180]]"
  have l: "0 < MaxNumOfEWMATruncateSize limits1 \<and>
      MaxNumOfEWMATruncateSize limits1 \<le> MaxNumOfEWMA limits1 + 1"
    by (simp add: limits1_def)
  have f: "VIDYA_input vidya0 = [] \<and> CCI_TypicalPrice cci0 = []"
    by (simp add: vidya0_def cci0_def)
  have w: "?hist \<noteq> [] \<and> (\<forall>w \<in> set ?ws. w \<noteq> [])"
    by simp
  have m: "?hist @ map last ?ws = [kline 100 60, kline 104 120, kline 102 180]"
    by simp
  from cold_start_steady_state [of limits1 vidya0 ?hist ?ws ops1 cci0] l f w
  have "feed (VIDYA_calculateAndUpdate limits1 ops1) vidya0 (?hist # ?ws) =
      VIDYA_calculateAndUpdate limits1 ops1 vidya0 (?hist @ map last ?ws)"
    and "feed (CCI_calculateAndUpdate limits1) cci0 (?hist # ?ws) =
      CCI_calculateAndUpdate limits1 cci0 (?hist @ map last ?ws)"
    by blast+
  then show ?thesis
    unfolding m using l f by (simp add: VIDYA_instance CCI_instance)
qed

lemma RMA_Update_EndTime: "RMA_EndTime (RMA_Update inc x) = RMA_EndTime inc"
  by (simp add: RMA_Update_def Let_def)

lemma RMA_loop_EndTime: "RMA_EndTime (RMA_loop z inc ks) = RMA_EndTime inc"
  by (induction ks arbitrary: inc) (simp_all add: RMA_Update_EndTime)

lemma RMA_loop_append: "RMA_loop z inc (xs @ ys) = RMA_loop z (RMA_loop z inc xs) ys"
  by (induction xs arbitrary: inc) simp_all

lemma RMA_loop_filter:
  assumes "RMA_EndTime inc \<noteq> z"
  shows "RMA_loop z inc ks =
    foldl (\<lambda>inc k. RMA_Update inc (Close k)) inc (filter (\<lambda>k. EndTime k > RMA_EndTime inc) ks)"
  using assms
proof (induction ks arbitrary: inc)
  case Nil
  show ?case by simp
next
  case (Cons k ks)
  show ?case
  proof (cases "EndTime k > RMA_EndTime inc")
    case True
    have "RMA_EndTime (RMA_Update inc (Close k)) \<noteq> z"
      using Cons.prems by (simp add: RMA_Update_EndTime)
    from Cons.IH [OF this] True show ?thesis
      by (simp add: RMA_Update_EndTime)
  next
    case False
    with Cons.IH [OF Cons.prems] Cons.prems show ?thesis by simp
  qed
qed

lemma RMA_loop_skip:
  assumes "RMA_EndTime inc \<noteq> z" "\<not> EndTime k > RMA_EndTime inc"
  shows "RMA_loop z inc (pre @ k # post) = RMA_loop z inc (pre @ post)"
  using assms by (simp add: RMA_loop_append RMA_loop_EndTime)

lemma RMA_calc_Values:
  "map_option RMA_Values (RMA_calculateAndUpdate z inc (pre @ k # post)) =
     Some (RMA_Values (RMA_loop z inc (pre @ k # post)))"
  by (simp add: RMA_calculateAndUpdate_def Let_def RMA_EmitUpdate_def)

lemma ATR_Update_EndTime: "ATR_Update z inc h l c = Some inc' \<Longrightarrow> ATR_EndTime inc' = ATR_EndTime inc"
  by (auto simp: ATR_Update_def Let_def split: if_splits option.splits)

lemma ATR_loop_EndTime: "ATR_loop z inc ks = Some inc' \<Longrightarrow> ATR_EndTime inc' = ATR_EndTime inc"
proof (induction ks arbitrary: inc)
  case Nil
  then show ?case by simp
next
  case (Cons k ks)
  then show ?case
    by (auto split: if_splits option.splits dest: ATR_Update_EndTime)
qed

lemma ATR_loop_append:
  "ATR_loop z inc (xs @ ys) =
     (case ATR_loop z inc xs of None \<Rightarrow> None | Some inc' \<Rightarrow> ATR_loop z inc' ys)"
  by (induction xs arbitrary: inc) (simp_all split: option.splits)

lemma ATR_loop_skip:
  assumes "ATR_EndTime inc \<noteq> z" "\<not> EndTime k > ATR_EndTime inc"
  shows "ATR_loop z inc (pre @ k # post) = ATR_loop z inc (pre @ post)"
proof (cases "ATR_loop z inc pre")
  case None
  then show ?thesis by (simp add: ATR_loop_append)
next
  case (Some inc')
  with assms ATR_loop_EndTime [OF Some] show ?thesis
    by (simp add: ATR_loop_append)
qed

lemma ATR_calc_RMA:
  "map_option ATR_RMA (ATR_calculateAndUpdate z inc (pre @ k # post)) =
     map_option ATR_RMA (ATR_loop z inc (pre @ k # post))"
  by (simp add: ATR_calculateAndUpdate_def Let_def ATR_EmitUpdate_def split: option.splits)

lemma ATR_calc_PV:
  "map_option ATR_PercentageVolatility (ATR_calculateAndUpdate z inc (pre @ k # post)) =
     map_option ATR_PercentageVolatility (ATR_loop z inc (pre @ k # post))"
  by (simp add: ATR_calculateAndUpdate_def Let_def ATR_EmitUpdate_def split: option.splits)

lemma ATR_loop_filter:
  assumes "ATR_EndTime inc = mark" "mark \<noteq> z"
  shows "ATR_loop z inc ks =
    feed (\<lambda>inc k. ATR_Update z inc (High k) (Low k) (Close k)) inc
      (filter (\<lambda>k. EndTime k > mark) ks)"
  using assms
proof (induction ks arbitrary: inc)
  case Nil
  show ?case by simp
next
  case (Cons k ks)
  show ?case
  proof (cases "EndTime k > mark")
    case False
    with Cons show ?thesis by simp
  next
    case True
    show ?thesis
    proof (cases "ATR_Update z inc (High k) (Low k) (Close k)")
      case None
      with True Cons.prems show ?thesis by simp
    next
      case (Some inc')
      from ATR_Update_EndTime [OF Some] Cons.prems have "ATR_EndTime inc' = mark" by simp
      from Cons.IH [OF this Cons.prems(2)] True Some Cons.prems show ?thesis by simp
    qed
  qed
qed

text \<open>
  C4: RMA and ATR keep a high-water mark in \<open>EndTime\<close>. Once a mark is recorded (the field is
  not \<open>zeroTime\<close>), the loop of \<^verbatim>\<open>calculateAndUpdate\<close> applies \<open>Update\<close> to the candles that end
  after the mark, in their order, and to no other. A candle of the window whose end time is
  not after the mark is skipped: the loop leaves the indicator as it does on the window
  without that candle, and the histories after \<^verbatim>\<open>calculateAndUpdate\<close> (the values of RMA; for
  ATR those of its RMA and the percentage volatility) are those of the window without it.
\<close>

theorem stale_candle_skipped:
  "(RMA_EndTime rma \<noteq> zeroTime \<longrightarrow>
      RMA_loop zeroTime rma kLines =
        foldl (\<lambda>inc k. RMA_Update inc (Close k)) rma
          (filter (\<lambda>k. EndTime k > RMA_EndTime rma) kLines) \<and>
      (\<not> EndTime k > RMA_EndTime rma \<longrightarrow>
         RMA_loop zeroTime rma (pre @ k # post) = RMA_loop zeroTime rma (pre @ post) \<and>
         map_option RMA_Values (RMA_calculateAndUpdate zeroTime rma (pre @ k # post)) =
           Some (RMA_Values (RMA_loop zeroTime rma (pre @ post))))) \<and>
   (ATR_EndTime atr \<noteq> zeroTime \<longrightarrow>
      ATR_loop zeroTime atr kLines =
        feed (\<lambda>inc k. ATR_Update zeroTime inc (High k) (Low k) (Close k)) atr
          (filter (\<lambda>k. EndTime k > ATR_EndTime atr) kLines) \<and>
      (\<not> EndTime k > ATR_EndTime atr \<longrightarrow>
         ATR_loop zeroTime atr (pre @ k # post) = ATR_loop zeroTime atr (pre @ post) \<and>
         map_option ATR_RMA (ATR_calculateAndUpdate zeroTime atr (pre @ k # post)) =
           map_option ATR_RMA (ATR_loop zeroTime atr (pre @ post)) \<and>
         map_option ATR_PercentageVolatility
             (ATR_calculateAndUpdate zeroTime atr (pre @ k # post)) =
           map_option ATR_PercentageVolatility (ATR_loop zeroTime atr (pre @ post))))"
proof (intro conjI impI)
  assume "RMA_EndTime rma \<noteq> zeroTime"
  then show "RMA_loop zeroTime rma kLines =
      foldl (\<lambda>inc k. RMA_Update inc (Close k)) rma
        (filter (\<lambda>k. EndTime k > RMA_EndTime rma) kLines)"
    by (rule RMA_loop_filter)
next
  assume "RMA_EndTime rma \<noteq> zeroTime" and "\<not> EndTime k > RMA_EndTime rma"
  then show skip: "RMA_loop zeroTime rma (pre @ k # post) = RMA_loop zeroTime rma (pre @ post)"
    by (rule RMA_loop_skip)
  show "map_option RMA_Values (RMA_calculateAndUpdate zeroTime rma (pre @ k # post)) =
      Some (RMA_Values (RMA_loop zeroTime rma (pre @ post)))"
    unfolding RMA_calc_Values skip ..
next
  assume "ATR_EndTime atr \<noteq> zeroTime"
  with refl show "ATR_loop zeroTime atr kLines =
      feed (\<lambda>inc k. ATR_Update zeroTime inc (High k) (Low k) (Close k)) atr
        (filter (\<lambda>k. EndTime k > ATR_EndTime atr) kLines)"
    by (rule ATR_loop_filter)
next
  assume "ATR_EndTime atr \<noteq> zeroTime" and "\<not> EndTime k > ATR_EndTime atr"
  then show skip: "ATR_loop zeroTime atr (pre @ k # post) = ATR_loop zeroTime atr (pre @ post)"
    by (rule ATR_loop_skip)
  show "map_option ATR_RMA (ATR_calculateAndUpdate zeroTime atr (pre @ k # post)) =
      map_option ATR_RMA (ATR_loop zeroTime atr (pre @ post))"
    unfolding ATR_calc_RMA skip ..
  show "map_option ATR_PercentageVolatility (ATR_calculateAndUpdate zeroTime atr (pre @ k # post)) =
      map_option ATR_PercentageVolatility (ATR_loop zeroTime atr (pre @ post))"
    unfolding ATR_calc_PV skip ..
qed

theorem stale_candle_skipped_witness:
  "RMA_EndTime rma1 \<noteq> 0 \<and> \<not> EndTime (kline 100 60) > RMA_EndTime rma1 \<and>
   RMA_loop 0 rma1 [kline 101 90, kline 100 60, kline 104 120] =
     RMA_Update (RMA_Update rma1 101) 104 \<and>
   RMA_loop 0 rma1 ([kline 101 90] @ kline 100 60 # [kline 104 120]) =
     RMA_loop 0 rma1 ([kline 101 90] @ [kline 104 120]) \<and>
   map_option RMA_Values
     (RMA_calculateAndUpdate 0 rma1 ([kline 101 90] @ kline 100 60 # [kline 104 120])) =
     Some [0, 201 / 2, 409 / 4] \<and>
   ATR_EndTime atr1 \<noteq> 0 \<and> \<not> EndTime (kline 100 60) > ATR_EndTime atr1 \<and>
   ATR_loop 0 atr1 ([kline 101 90] @ kline 100 60 # [kline 104 120]) =
     ATR_loop 0 atr1 ([kline 101 90] @ [kline 104 120]) \<and>
   map_option ATR_PercentageVolatility
     (ATR_calculateAndUpdate 0 atr1 ([kline 101 90] @ kline 100 60 # [kline 104 120])) =
     Some [0, 3 / 104]"
proof -
  let ?ks = "[kline 101 90, kline 100 60, kline 104 120]"
  have r: "RMA_EndTime rma1 \<noteq> 0" "\<not> EndTime (kline 100 60) > RMA_EndTime rma1"
    by (simp_all add: rma1_def kline_def)
  have a: "ATR_EndTime atr1 \<noteq> 0" "\<not> EndTime (kline 100 60) > ATR_EndTime atr1"
    by (simp_all add: atr1_def kline_def)
  note t = stale_candle_skipped [of rma1 0 ?ks "kline 100 60" "[kline 101 90]"
      "[kline 104 120]" atr1]
  from t r have r1: "RMA_loop 0 rma1 ?ks =
      foldl (\<lambda>inc k. RMA_Update inc (Close k)) rma1 (filter (\<lambda>k. EndTime k > RMA_EndTime rma1) ?ks)"
    and r2: "RMA_loop 0 rma1 ([kline 101 90] @ kline 100 60 # [kline 104 120]) =
      RMA_loop 0 rma1 ([kline 101 90] @ [kline 104 120])"
    and r3: "map_option RMA_Values
      (RMA_calculateAndUpdate 0 rma1 ([kline 101 90] @ kline 100 60 # [kline 104 120])) =
      Some (RMA_Values (RMA_loop 0 rma1 ([kline 101 90] @ [kline 104 120])))"
    by blast+
  from t a have a2: "ATR_loop 0 atr1 ([kline 101 90] @ kline 100 60 # [kline 104 120]) =
      ATR_loop 0 atr1 ([kline 101 90] @ [kline 104 120])"
    and a3: "map_option ATR_PercentageVolatility
      (ATR_calculateAndUpdate 0 atr1 ([kline 101 90] @ kline 100 60 # [kline 104 120])) =
      map_option ATR_PercentageVolatility (ATR_loop 0 atr1 ([kline 101 90] @ [kline 104 120]))"
    by blast+
  have f: "foldl (\<lambda>inc k. RMA_Update inc (Close k)) rma1
      (filter (\<lambda>k. EndTime k > RMA_EndTime rma1) ?ks) = RMA_Update (RMA_Update rma1 101) 104"
    by (simp add: rma1_def kline_def)
  have rv: "RMA_Values (RMA_loop 0 rma1 ([kline 101 90] @ [kline 104 120])) = [0, 201 / 2, 409 / 4]"
    by (simp add: rma1_def kline_def RMA_Update_def Push_def Let_def)
  have av: "map_option ATR_PercentageVolatility
      (ATR_loop 0 atr1 ([kline 101 90] @ [kline 104 120])) = Some [0, 3 / 104]"
    by (simp add: atr1_def kline_def ATR_Update_def RMA_new_def RMA_Update_def RMA_Last_def
        Last_def Push_def Let_def)
  from r r1 [unfolded f] r2 r3 [unfolded rv] a a2 a3 [unfolded av]
  show ?thesis by (intro conjI)
qed

lemma truncate_tail_length:
  assumes "truncate_tail c s = Some s'" "2 \<le> MaxNumOfEWMATruncateSize c"
    "int (length s) \<le> MaxNumOfEWMA c + 1"
  shows "int (length s') \<le> MaxNumOfEWMA c"
  using assms by (auto simp: truncate_tail_def slice_from_def split: if_splits)

lemma truncate_tail_suffix:
  assumes "truncate_tail c s = Some s'"
  shows "suffix s' s"
  using assms by (auto simp: truncate_tail_def slice_from_def suffix_drop split: if_splits)

lemma DEMA_Update_Values:
  assumes "DEMA_Update c ewma inc x = Some inc'"
  shows "\<exists>v. truncate_tail c (Push (DEMA_Values inc) v) = Some (DEMA_Values inc')"
  using assms
  by (auto simp: DEMA_Update_def Let_def split: option.splits if_splits)

lemma DEMA_Update_suffix:
  assumes "DEMA_Update c ewma inc x = Some inc'"
  shows "\<exists>v. suffix (DEMA_Values inc') (DEMA_Values inc @ [v])"
proof -
  from DEMA_Update_Values [OF assms] obtain v
    where "truncate_tail c (Push (DEMA_Values inc) v) = Some (DEMA_Values inc')" ..
  then have "suffix (DEMA_Values inc') (DEMA_Values inc @ [v])"
    unfolding Push_def by (rule truncate_tail_suffix)
  then show ?thesis ..
qed

lemma DEMA_Update_cap:
  assumes "DEMA_Update c ewma inc x = Some inc'" "2 \<le> MaxNumOfEWMATruncateSize c"
    "int (length (DEMA_Values inc)) \<le> MaxNumOfEWMA c"
  shows "int (length (DEMA_Values inc')) \<le> MaxNumOfEWMA c"
proof -
  from DEMA_Update_Values [OF assms(1)] obtain v
    where t: "truncate_tail c (Push (DEMA_Values inc) v) = Some (DEMA_Values inc')" ..
  from assms(3) have "int (length (Push (DEMA_Values inc) v)) \<le> MaxNumOfEWMA c + 1"
    by (simp add: Push_def)
  with t assms(2) show ?thesis by (rule truncate_tail_length)
qed

lemma DEMA_Update_returns:
  assumes "0 < MaxNumOfEWMATruncateSize c" "MaxNumOfEWMATruncateSize c \<le> MaxNumOfEWMA c + 2"
    and "DEMA_Values inc = [] \<or> (DEMA_a1 inc \<noteq> None \<and> DEMA_a2 inc \<noteq> None)"
  shows "\<exists>inc'. DEMA_Update c ewma inc x = Some inc' \<and> DEMA_a1 inc' \<noteq> None \<and> DEMA_a2 inc' \<noteq> None"
  using assms(3)
  by (auto simp: DEMA_Update_def Let_def truncate_tail_returns [OF assms(1,2)])

lemma DEMA_feed:
  assumes "2 \<le> MaxNumOfEWMATruncateSize c" "MaxNumOfEWMATruncateSize c \<le> MaxNumOfEWMA c + 2"
    and "int (length (DEMA_Values inc)) \<le> MaxNumOfEWMA c"
    and "DEMA_Values inc = [] \<or> (DEMA_a1 inc \<noteq> None \<and> DEMA_a2 inc \<noteq> None)"
  shows "\<exists>inc'. feed (DEMA_Update c ewma) inc xs = Some inc' \<and>
           int (length (DEMA_Values inc')) \<le> MaxNumOfEWMA c"
  using assms(3,4)
proof (induction xs arbitrary: inc)
  case Nil
  then show ?case by simp
next
  case (Cons x xs)
  from assms(1) have pos: "0 < MaxNumOfEWMATruncateSize c" by simp
  from DEMA_Update_returns [OF pos assms(2) Cons.prems(2)] obtain inc1
    where u: "DEMA_Update c ewma inc x = Some inc1"
      and a: "DEMA_a1 inc1 \<noteq> None \<and> DEMA_a2 inc1 \<noteq> None" by blast
  from DEMA_Update_cap [OF u assms(1) Cons.prems(1)]
  have "int (length (DEMA_Values inc1)) \<le> MaxNumOfEWMA c" .
  from Cons.IH [OF this] a u show ?case by simp
qed

lemma OBV_Update_length:
  "length (OBV_Values (OBV_Update inc price volume)) = Suc (length (OBV_Values inc))"
  by (simp add: OBV_Update_def Push_def)

lemma OBV_updates_length:
  "length (OBV_Values (OBV_updates inc pvs)) = length (OBV_Values inc) + length pvs"
  unfolding OBV_updates_def
  by (induction pvs arbitrary: inc) (simp_all add: OBV_Update_length split: prod.splits)

lemma truncate_tail_exact:
  assumes "truncate_tail c s = Some s'"
  shows "s' = (if MaxNumOfEWMA c < int (length s)
               then drop (nat (MaxNumOfEWMATruncateSize c - 1)) s else s) \<and>
         (MaxNumOfEWMA c < int (length s) \<longrightarrow>
            0 \<le> MaxNumOfEWMATruncateSize c - 1 \<and>
            int (length s') = int (length s) - (MaxNumOfEWMATruncateSize c - 1))"
  using assms by (auto simp: truncate_tail_def slice_from_def split: if_splits)

lemma DEMA_Update_new_value:
  assumes "DEMA_Update c ewma inc x = Some inc'"
  shows "\<exists>a1' a2'. DEMA_a1 inc' = Some a1' \<and> DEMA_a2 inc' = Some a2' \<and>
           truncate_tail c (Push (DEMA_Values inc) (2 * EWMA_Last ewma a1' - EWMA_Last ewma a2')) =
             Some (DEMA_Values inc')"
  using assms
  by (auto simp: DEMA_Update_def Let_def split: option.splits if_splits)

lemma DEMA_Update_exact:
  assumes "DEMA_Update c ewma inc x = Some inc'"
  shows "\<exists>a1' a2'. DEMA_a1 inc' = Some a1' \<and> DEMA_a2 inc' = Some a2' \<and>
           DEMA_Values inc' =
             (if MaxNumOfEWMA c < int (length (DEMA_Values inc)) + 1
              then drop (nat (MaxNumOfEWMATruncateSize c - 1))
                     (DEMA_Values inc @ [2 * EWMA_Last ewma a1' - EWMA_Last ewma a2'])
              else DEMA_Values inc @ [2 * EWMA_Last ewma a1' - EWMA_Last ewma a2']) \<and>
           (MaxNumOfEWMA c < int (length (DEMA_Values inc)) + 1 \<longrightarrow>
              0 \<le> MaxNumOfEWMATruncateSize c - 1 \<and>
              int (length (DEMA_Values inc')) =
                int (length (DEMA_Values inc)) + 1 - (MaxNumOfEWMATruncateSize c - 1))"
proof -
  from DEMA_Update_new_value [OF assms] obtain a1' a2'
    where a: "DEMA_a1 inc' = Some a1'" "DEMA_a2 inc' = Some a2'"
      and t: "truncate_tail c (Push (DEMA_Values inc) (2 * EWMA_Last ewma a1' - EWMA_Last ewma a2')) =
        Some (DEMA_Values inc')"
    by blast
  let ?v = "2 * EWMA_Last ewma a1' - EWMA_Last ewma a2'"
  have len: "int (length (DEMA_Values inc @ [?v])) = int (length (DEMA_Values inc)) + 1"
    by simp
  note e = truncate_tail_exact [OF t [unfolded Push_def], unfolded len]
  from a e show ?thesis by blast
qed

text \<open>
  C6 (as amended): whenever \<^verbatim>\<open>DEMA.Update\<close> returns, the new history is the old one with the
  new value \<open>2 \<times> a1.Last() - a2.Last()\<close> appended and, if that is longer than \<open>MaxNumOfEWMA\<close>,
  with exactly its \<open>MaxNumOfEWMATruncateSize - 1\<close> oldest values dropped: the most recent are
  kept. If \<open>2 \<le> MaxNumOfEWMATruncateSize\<close> and the history was within \<open>MaxNumOfEWMA\<close> it is
  within it afterwards; on a fresh DEMA, if also \<open>MaxNumOfEWMATruncateSize \<le> MaxNumOfEWMA + 2\<close>,
  every run of \<open>Update\<close> calls returns with the history within the cap. \<^verbatim>\<open>OBV.Update\<close> never
  drops a value: after \<open>n\<close> updates a fresh OBV holds \<open>n\<close> values.
\<close>

theorem value_history_cap:
  "(DEMA_Update c ewma inc x = Some inc' \<longrightarrow>
      (\<exists>a1' a2'. DEMA_a1 inc' = Some a1' \<and> DEMA_a2 inc' = Some a2' \<and>
         DEMA_Values inc' =
           (if MaxNumOfEWMA c < int (length (DEMA_Values inc)) + 1
            then drop (nat (MaxNumOfEWMATruncateSize c - 1))
                   (DEMA_Values inc @ [2 * EWMA_Last ewma a1' - EWMA_Last ewma a2'])
            else DEMA_Values inc @ [2 * EWMA_Last ewma a1' - EWMA_Last ewma a2']) \<and>
         (MaxNumOfEWMA c < int (length (DEMA_Values inc)) + 1 \<longrightarrow>
            0 \<le> MaxNumOfEWMATruncateSize c - 1 \<and>
            int (length (DEMA_Values inc')) =
              int (length (DEMA_Values inc)) + 1 - (MaxNumOfEWMATruncateSize c - 1))) \<and>
      (\<exists>v. suffix (DEMA_Values inc') (DEMA_Values inc @ [v])) \<and>
      (2 \<le> MaxNumOfEWMATruncateSize c \<and> int (length (DEMA_Values inc)) \<le> MaxNumOfEWMA c \<longrightarrow>
         int (length (DEMA_Values inc')) \<le> MaxNumOfEWMA c)) \<and>
   (2 \<le> MaxNumOfEWMATruncateSize c \<and> MaxNumOfEWMATruncateSize c \<le> MaxNumOfEWMA c + 2 \<longrightarrow>
      (\<exists>inc'. feed (DEMA_Update c ewma) (DEMA_new interval window) xs = Some inc' \<and>
         int (length (DEMA_Values inc')) \<le> MaxNumOfEWMA c)) \<and>
   length (OBV_Values (OBV_updates (OBV_new zeroTime) pvs)) = length pvs"
proof (intro conjI impI)
  assume "DEMA_Update c ewma inc x = Some inc'"
  then show "\<exists>a1' a2'. DEMA_a1 inc' = Some a1' \<and> DEMA_a2 inc' = Some a2' \<and>
         DEMA_Values inc' =
           (if MaxNumOfEWMA c < int (length (DEMA_Values inc)) + 1
            then drop (nat (MaxNumOfEWMATruncateSize c - 1))
                   (DEMA_Values inc @ [2 * EWMA_Last ewma a1' - EWMA_Last ewma a2'])
            else DEMA_Values inc @ [2 * EWMA_Last ewma a1' - EWMA_Last ewma a2']) \<and>
         (MaxNumOfEWMA c < int (length (DEMA_Values inc)) + 1 \<longrightarrow>
            0 \<le> MaxNumOfEWMATruncateSize c - 1 \<and>
            int (length (DEMA_Values inc')) =
              int (length (DEMA_Values inc)) + 1 - (MaxNumOfEWMATruncateSize c - 1))"
    by (rule DEMA_Update_exact)
next
  assume "DEMA_Update c ewma inc x = Some inc'"
  then show "\<exists>v. suffix (DEMA_Values inc') (DEMA_Values inc @ [v])"
    by (rule DEMA_Update_suffix)
next
  assume "DEMA_Update c ewma inc x = Some inc'"
    and "2 \<le> MaxNumOfEWMATruncateSize c \<and> int (length (DEMA_Values inc)) \<le> MaxNumOfEWMA c"
  then show "int (length (DEMA_Values inc')) \<le> MaxNumOfEWMA c"
    using DEMA_Update_cap [of c ewma inc x inc'] by blast
next
  assume h: "2 \<le> MaxNumOfEWMATruncateSize c \<and> MaxNumOfEWMATruncateSize c \<le> MaxNumOfEWMA c + 2"
  then have "int (length (DEMA_Values (DEMA_new interval window :: 'a DEMA))) \<le> MaxNumOfEWMA c"
    by (simp add: DEMA_new_def)
  moreover have "DEMA_Values (DEMA_new interval window :: 'a DEMA) = [] \<or>
      (DEMA_a1 (DEMA_new interval window :: 'a DEMA) \<noteq> None \<and>
       DEMA_a2 (DEMA_new interval window :: 'a DEMA) \<noteq> None)"
    by (simp add: DEMA_new_def)
  ultimately show "\<exists>inc'. feed (DEMA_Update c ewma) (DEMA_new interval window) xs = Some inc' \<and>
      int (length (DEMA_Values inc')) \<le> MaxNumOfEWMA c"
    using h DEMA_feed [of c "DEMA_new interval window" ewma xs] by blast
next
  show "length (OBV_Values (OBV_updates (OBV_new zeroTime) pvs)) = length pvs"
    by (simp add: OBV_updates_length OBV_new_def)
qed

theorem value_history_cap_witness:
  "DEMA_Update limits2 ewma1 dema3 4 = Some dema4 \<and>
   2 \<le> MaxNumOfEWMATruncateSize limits2 \<and>
   MaxNumOfEWMATruncateSize limits2 \<le> MaxNumOfEWMA limits2 + 2 \<and>
   int (length (DEMA_Values dema3)) \<le> MaxNumOfEWMA limits2 \<and>
   MaxNumOfEWMA limits2 < int (length (DEMA_Values dema3)) + 1 \<and>
   DEMA_Values dema4 =
     drop (nat (MaxNumOfEWMATruncateSize limits2 - 1)) (DEMA_Values dema3 @ [4]) \<and>
   DEMA_Values dema4 = [2, 3, 4] \<and>
   int (length (DEMA_Values dema4)) =
     int (length (DEMA_Values dema3)) + 1 - (MaxNumOfEWMATruncateSize limits2 - 1) \<and>
   (\<exists>v. suffix (DEMA_Values dema4) (DEMA_Values dema3 @ [v])) \<and>
   int (length (DEMA_Values dema4)) \<le> MaxNumOfEWMA limits2 \<and>
   (\<exists>inc'. feed (DEMA_Update limits2 ewma1) (DEMA_new ''1m'' 3) [1, 2, 3, 4, 5] = Some inc' \<and>
      int (length (DEMA_Values inc')) \<le> MaxNumOfEWMA limits2)"
proof -
  have u: "DEMA_Update limits2 ewma1 dema3 4 = Some dema4"
    by (simp add: DEMA_Update_def limits2_def ewma1_def dema3_def dema4_def truncate_tail_def
        slice_from_def Push_def Let_def)
  have l: "2 \<le> MaxNumOfEWMATruncateSize limits2 \<and>
      MaxNumOfEWMATruncateSize limits2 \<le> MaxNumOfEWMA limits2 + 2"
    by (simp add: limits2_def)
  have n: "int (length (DEMA_Values dema3)) \<le> MaxNumOfEWMA limits2"
    by (simp add: limits2_def dema3_def)
  have over: "MaxNumOfEWMA limits2 < int (length (DEMA_Values dema3)) + 1"
    by (simp add: limits2_def dema3_def)
  note t = value_history_cap [of limits2 ewma1 dema3 4 dema4 "''1m''" 3 "[1, 2, 3, 4, 5]"]
  note ex = t [THEN conjunct1, THEN mp, OF u, THEN conjunct1]
  from ex obtain a1' a2' where a: "DEMA_a1 dema4 = Some a1'" "DEMA_a2 dema4 = Some a2'"
    and i: "DEMA_Values dema4 =
        (if MaxNumOfEWMA limits2 < int (length (DEMA_Values dema3)) + 1
         then drop (nat (MaxNumOfEWMATruncateSize limits2 - 1))
                (DEMA_Values dema3 @ [2 * EWMA_Last ewma1 a1' - EWMA_Last ewma1 a2'])
         else DEMA_Values dema3 @ [2 * EWMA_Last ewma1 a1' - EWMA_Last ewma1 a2'])"
    and m: "MaxNumOfEWMA limits2 < int (length (DEMA_Values dema3)) + 1 \<longrightarrow>
        0 \<le> MaxNumOfEWMATruncateSize limits2 - 1 \<and>
        int (length (DEMA_Values dema4)) =
          int (length (DEMA_Values dema3)) + 1 - (MaxNumOfEWMATruncateSize limits2 - 1)"
    by blast
  from i over have v: "DEMA_Values dema4 = drop (nat (MaxNumOfEWMATruncateSize limits2 - 1))
        (DEMA_Values dema3 @ [2 * EWMA_Last ewma1 a1' - EWMA_Last ewma1 a2'])"
    by (simp only: if_True)
  from m over have len: "int (length (DEMA_Values dema4)) =
        int (length (DEMA_Values dema3)) + 1 - (MaxNumOfEWMATruncateSize limits2 - 1)"
    by blast
  from a have "2 * EWMA_Last ewma1 a1' - EWMA_Last ewma1 a2' = 4"
    by (simp add: dema4_def ewma1_def)
  with v have v4: "DEMA_Values dema4 =
      drop (nat (MaxNumOfEWMATruncateSize limits2 - 1)) (DEMA_Values dema3 @ [4])"
    by (simp only:)
  have d: "DEMA_Values dema4 = [2, 3, 4]"
    by (simp add: dema4_def)
  from t u l n have s: "\<exists>v. suffix (DEMA_Values dema4) (DEMA_Values dema3 @ [v])"
    and c: "int (length (DEMA_Values dema4)) \<le> MaxNumOfEWMA limits2"
    and f: "\<exists>inc'. feed (DEMA_Update limits2 ewma1) (DEMA_new ''1m'' 3) [1, 2, 3, 4, 5] = Some inc' \<and>
      int (length (DEMA_Values inc')) \<le> MaxNumOfEWMA limits2"
    by blast+
  from l have l1: "2 \<le> MaxNumOfEWMATruncateSize limits2"
    and l2: "MaxNumOfEWMATruncateSize limits2 \<le> MaxNumOfEWMA limits2 + 2" by blast+
  from u l1 l2 n over v4 d len s c f show ?thesis by (intro conjI)
qed

text \<open>
  C6 as stated fails for OBV: with the cap at 5000, a fresh OBV that is updated 5001 times
  holds 5001 values. (It exceeds any other cap in the same way.)
\<close>

theorem OBV_history_counterexample:
  "int (length (OBV_Values (OBV_updates (OBV_new 0) (replicate 5001 (30000, 1))))) >
     MaxNumOfEWMA limits1"
  by (simp add: OBV_updates_length OBV_new_def limits1_def)

text \<open>
  C7 does not hold of \<^verbatim>\<open>OBV.Update\<close>, which compares the volume with \<open>PrePrice\<close> and never
  assigns \<open>PrePrice\<close> after the first update. After (price 10, volume 5), the update (price 11,
  volume 5) is a rise in price, yet the volume is subtracted; after (10, 20) and (12, 20),
  the update (11, 20) is a fall in price, yet the volume is added.
\<close>

theorem OBV_price_direction:
  "OBV_Values (OBV_updates (OBV_new 0) [(10, 5), (11, 5)]) = [5, 0] \<and>
   OBV_Values (OBV_updates (OBV_new 0) [(10, 20), (12, 20), (11, 20)]) = [20, 40, 60]"
  by (simp add: OBV_updates_def OBV_Update_def OBV_Last_def OBV_new_def Push_def)

section \<open>Properties of the sync service\<close>

lemma select_outcomes_nonempty: "select_outcomes s \<noteq> {}"
  by (auto simp: select_outcomes_def split: option.splits)

lemma consume_nonempty: "consume Insert stored events \<noteq> {}"
proof (induction events arbitrary: stored)
  case Nil
  show ?case by simp
next
  case (Cons ev events)
  obtain order s where ev: "ev = (order, s)" by (cases ev)
  from select_outcomes_nonempty obtain choice where c: "choice \<in> select_outcomes s" by blast
  have "(case choice of
          Some r \<Rightarrow> {(r, stored)}
        | None \<Rightarrow>
            (case Insert stored order of
               Some err \<Rightarrow> {(Some err, stored)}
             | None \<Rightarrow> consume Insert (stored @ [order]) events)) \<noteq> {}"
    using Cons.IH by (simp split: option.splits)
  with c show ?case unfolding ev by (simp only: consume.simps) blast
qed

lemma SyncTrades_queries:
  "fst (snd (SyncTrades (Inr lastTrade) batchQueryTrades Insert startTime)) =
     [case lastTrade of
        None \<Rightarrow> \<lparr>StartTime = startTime, Limit = 200, LastTradeID = 0\<rparr>
      | Some t \<Rightarrow> \<lparr>StartTime = Time t, Limit = 200, LastTradeID = ID t\<rparr>]"
  by (simp add: SyncTrades_def Let_def split: option.splits sum.splits prod.splits)

lemma image_queries:
  assumes "A \<noteq> {}"
  shows "(\<lambda>res. fst (snd res)) ` ((\<lambda>(err, stored). (err, q, stored)) ` A) = {q}"
proof -
  from assms obtain a where "a \<in> A" by blast
  then show ?thesis by (force simp: image_iff split: prod.splits)
qed

lemma SyncOrders_queries:
  "(\<lambda>res. fst (snd res)) ` SyncOrders (Inr lastOrder) now batchQueryClosedOrders Insert startTime =
     {[case lastOrder of
        None \<Rightarrow> \<lparr>since = startTime, until = now, lastOrderID = 0\<rparr>
      | Some order \<Rightarrow> \<lparr>since = CreationTime order, until = now, lastOrderID = OrderID order\<rparr>]}"
proof (cases lastOrder)
  case None
  let ?q = "\<lparr>since = startTime, until = now, lastOrderID = 0\<rparr>"
  have "SyncOrders (Inr lastOrder) now batchQueryClosedOrders Insert startTime =
      (\<lambda>(err, stored). (err, [?q], stored)) ` consume Insert [] (batchQueryClosedOrders ?q)"
    using None by (simp add: SyncOrders_def Let_def)
  with image_queries [OF consume_nonempty, of "[?q]" Insert "[]" "batchQueryClosedOrders ?q"] None
  show ?thesis by simp
next
  case (Some order)
  let ?q = "\<lparr>since = CreationTime order, until = now, lastOrderID = OrderID order\<rparr>"
  have "SyncOrders (Inr lastOrder) now batchQueryClosedOrders Insert startTime =
      (\<lambda>(err, stored). (err, [?q], stored)) ` consume Insert [] (batchQueryClosedOrders ?q)"
    using Some by (simp add: SyncOrders_def Let_def)
  with image_queries [OF consume_nonempty, of "[?q]" Insert "[]" "batchQueryClosedOrders ?q"] Some
  show ?thesis by simp
qed

text \<open>
  C5: if storage holds a last persisted trade (order), the query that \<^verbatim>\<open>SyncTrades\<close>
  (\<^verbatim>\<open>SyncOrders\<close>) sends to the exchange starts at that record's time with that record's ID
  as the cursor, whatever start time the caller gave; if storage holds none, it starts at
  the caller's start time with cursor 0. \<^verbatim>\<open>SyncTrades\<close> asks for pages of 200, \<^verbatim>\<open>SyncOrders\<close>
  queries up to now. The start time that \<^verbatim>\<open>NewEnvironment\<close> sets is now with 7 days taken off
  by \<^verbatim>\<open>AddDate(0, 0, -7)\<close>.
\<close>

theorem sync_resume_point:
  "(queryLastTrade = Inr (Some t) \<longrightarrow>
      fst (snd (SyncTrades queryLastTrade batchQueryTrades InsertTrade startTime)) =
        [\<lparr>StartTime = Time t, Limit = 200, LastTradeID = ID t\<rparr>]) \<and>
   (queryLastTrade = Inr None \<longrightarrow>
      fst (snd (SyncTrades queryLastTrade batchQueryTrades InsertTrade startTime)) =
        [\<lparr>StartTime = startTime, Limit = 200, LastTradeID = 0\<rparr>]) \<and>
   (queryLastOrder = Inr (Some order) \<longrightarrow>
      (\<lambda>res. fst (snd res)) `
        SyncOrders queryLastOrder now batchQueryClosedOrders InsertOrder startTime =
        {[\<lparr>since = CreationTime order, until = now, lastOrderID = OrderID order\<rparr>]}) \<and>
   (queryLastOrder = Inr None \<longrightarrow>
      (\<lambda>res. fst (snd res)) `
        SyncOrders queryLastOrder now batchQueryClosedOrders InsertOrder startTime =
        {[\<lparr>since = startTime, until = now, lastOrderID = 0\<rparr>]}) \<and>
   tradeScanTime (NewEnvironment AddDate now) = AddDate now 0 0 (- 7)"
  by (simp add: SyncTrades_queries SyncOrders_queries NewEnvironment_def)

theorem sync_resume_point_witness:
  "fst (snd (SyncTrades (Inr (Some trade1)) (\<lambda>options. Inr []) (\<lambda>stored t. None) 500)) =
     [\<lparr>StartTime = 1000, Limit = 200, LastTradeID = 42\<rparr>] \<and>
   fst (snd (SyncTrades (Inr None) (\<lambda>options. Inr []) (\<lambda>stored t. None) 500)) =
     [\<lparr>StartTime = 500, Limit = 200, LastTradeID = 0\<rparr>] \<and>
   (\<lambda>res. fst (snd res)) `
     SyncOrders (Inr (Some order1)) 2000 (\<lambda>query. []) (\<lambda>stored order. None) 500 =
     {[\<lparr>since = 900, until = 2000, lastOrderID = 77\<rparr>]} \<and>
   (\<lambda>res. fst (snd res)) `
     SyncOrders (Inr None) 2000 (\<lambda>query. []) (\<lambda>stored order. None) 500 =
     {[\<lparr>since = 500, until = 2000, lastOrderID = 0\<rparr>]}"
  using sync_resume_point [of "Inr (Some trade1)" trade1 "\<lambda>options. Inr []" "\<lambda>stored t. None" 500
      "Inr (Some order1)" order1 2000 "\<lambda>query. []" "\<lambda>stored order. None"]
    sync_resume_point [of "Inr None" trade1 "\<lambda>options. Inr []" "\<lambda>stored t. None" 500
      "Inr None" order1 2000 "\<lambda>query. []" "\<lambda>stored order. None"]
  by (simp add: trade1_def order1_def)

text \<open>
  C9 (as amended): after each order received, and before it is inserted, the loop of
  \<^verbatim>\<open>SyncOrders\<close> looks at both the cancellation and the error channel. If only the context is
  done, the loop returns the context's error; if only an error is ready, it returns that
  error; in both cases the order at hand is not inserted. If both are ready, either of the
  two may be returned. If neither is ready, the order is inserted and the loop goes on.
\<close>

theorem select_either_signal:
  "(ctxDone s = Some e \<and> errC s = None \<longrightarrow>
      consume Insert stored ((order, s) # events) = {(Some e, stored)}) \<and>
   (ctxDone s = None \<and> errC s = Some v \<longrightarrow>
      consume Insert stored ((order, s) # events) = {(v, stored)}) \<and>
   (ctxDone s = Some e \<and> errC s = Some v \<longrightarrow>
      consume Insert stored ((order, s) # events) = {(Some e, stored), (v, stored)}) \<and>
   (ctxDone s = None \<and> errC s = None \<longrightarrow>
      consume Insert stored ((order, s) # events) =
        (case Insert stored order of
           Some err \<Rightarrow> {(Some err, stored)}
         | None \<Rightarrow> consume Insert (stored @ [order]) events))"
  by (auto simp: select_outcomes_def)

theorem select_either_signal_witness:
  "consume (\<lambda>stored order. None) [] [(order1, cancelled), (bid7, quiet)] =
     {(Some ContextCanceled, [])} \<and>
   consume (\<lambda>stored order. None) [] [(order1, failed), (bid7, quiet)] =
     {(Some (Error ''query failed''), [])} \<and>
   consume (\<lambda>stored order. None) [] [(order1, cancelled_and_failed), (bid7, quiet)] =
     {(Some ContextCanceled, []), (Some (Error ''query failed''), [])} \<and>
   consume (\<lambda>stored order. None) [] [(order1, quiet)] = {(None, [order1])}"
  using select_either_signal [where s = cancelled and e = ContextCanceled
      and v = "Some (Error ''query failed'')" and Insert = "\<lambda>stored order. None"
      and stored = "[]" and order = order1 and events = "[(bid7, quiet)]"]
    select_either_signal [where s = failed and e = ContextCanceled
      and v = "Some (Error ''query failed'')" and Insert = "\<lambda>stored order. None"
      and stored = "[]" and order = order1 and events = "[(bid7, quiet)]"]
    select_either_signal [where s = cancelled_and_failed and e = ContextCanceled
      and v = "Some (Error ''query failed'')" and Insert = "\<lambda>stored order. None"
      and stored = "[]" and order = order1 and events = "[(bid7, quiet)]"]
    select_either_signal [where s = quiet and e = ContextCanceled
      and v = "Some (Error ''query failed'')" and Insert = "\<lambda>stored order. None"
      and stored = "[]" and order = order1 and events = "[]"]
  by (simp add: cancelled_def failed_def cancelled_and_failed_def quiet_def)

text \<open>
  C9 as stated fails: with the context cancelled and an error ready at the same \<^verbatim>\<open>select\<close>,
  returning the cancellation is a possible result.
\<close>

theorem cancellation_may_win_counterexample:
  "(Some ContextCanceled, []) \<in>
     consume (\<lambda>stored order. None) [] [(order1, cancelled_and_failed)]"
  by (simp add: select_outcomes_def cancelled_and_failed_def)

section \<open>Properties of the circuit break risk control\<close>

text \<open>The six cases of \<^verbatim>\<open>Test_IsHalted\<close>, with the mark price 30000 that the test feeds in.\<close>

lemma Test_IsHalted:
  "IsHalted \<lparr>Base = 10, AverageCost = 30040\<rparr> 30000 (- 100) (- 500) \<and>
   IsHalted \<lparr>Base = 10, AverageCost = 30050\<rparr> 30000 (- 100) (- 500) \<and>
   \<not> IsHalted \<lparr>Base = 10, AverageCost = 30030\<rparr> 30000 (- 100) (- 500) \<and>
   IsHalted \<lparr>Base = - 10, AverageCost = 29960\<rparr> 30000 (- 100) (- 500) \<and>
   IsHalted \<lparr>Base = - 10, AverageCost = 29950\<rparr> 30000 (- 100) (- 500) \<and>
   \<not> IsHalted \<lparr>Base = - 10, AverageCost = 29970\<rparr> 30000 (- 100) (- 500)"
  by (simp add: IsHalted_def totalPnL_def unrealizedPnL_def)




end
